theory Spec2Isabelle
  imports Main "HOL-Library.Sublist" "HOL-Library.AList"
begin

section \<open>Strings\<close>

text \<open>
  Source strings are modelled as \<^typ>\<open>string\<close>; \<open>includesStr s t\<close> is \<open>s.includes(t)\<close>,
  contiguous substring containment.

  \<open>String.prototype.toLowerCase\<close> is the lower-casing of the language runtime, defined by
  the Unicode case tables, which are no part of the program. Every function below that
  calls it takes it as its first argument, \<open>toLowerCase\<close>, and the properties proved of
  these functions hold for every function put in its place. \<open>asciiLowerCase\<close> is
  lower-casing on ASCII text: the letters \<open>A\<close> to \<open>Z\<close> are folded and every other character
  is left alone. The runtime's lower-casing agrees with it on every string made of ASCII
  characters only; the examples, which are such strings, are run with it.
\<close>

definition lowerChar :: "char \<Rightarrow> char" where
  "lowerChar c =
     (case map_of (zip ''ABCDEFGHIJKLMNOPQRSTUVWXYZ'' ''abcdefghijklmnopqrstuvwxyz'') c of
        Some l \<Rightarrow> l
      | None \<Rightarrow> c)"

definition asciiLowerCase :: "string \<Rightarrow> string" where
  "asciiLowerCase s = map lowerChar s"

definition isAscii :: "string \<Rightarrow> bool" where
  "isAscii s = list_all (\<lambda>c. (of_char c :: nat) < 128) s"

definition includesStr :: "string \<Rightarrow> string \<Rightarrow> bool" where
  "includesStr s t = sublist t s"

text \<open>\<open>xs.some(p)\<close> and \<open>xs.slice(-n)\<close> of the source.\<close>

definition some :: "'a list \<Rightarrow> ('a \<Rightarrow> bool) \<Rightarrow> bool" where
  "some xs p = list_ex p xs"

definition sliceLast :: "nat \<Rightarrow> 'a list \<Rightarrow> 'a list" where
  "sliceLast n xs = drop (length xs - n) xs"

section \<open>Data model (\<open>schemas.ts\<close>, \<open>state/index.ts\<close>)\<close>

type_synonym timestamp = nat

datatype Action = REGENERATE_SCREEN | UPDATE_COMPONENTS

datatype ScreenLayout = Stack | SidebarLeft | SidebarRight | HolyGrail | Grid2 | Grid3

text \<open>The tags of the layout enumeration as the schema spells them.\<close>

fun layoutTag :: "ScreenLayout \<Rightarrow> string" where
  "layoutTag Stack = ''stack''"
| "layoutTag SidebarLeft = ''sidebar-left''"
| "layoutTag SidebarRight = ''sidebar-right''"
| "layoutTag HolyGrail = ''holy-grail''"
| "layoutTag Grid2 = ''grid-2''"
| "layoutTag Grid3 = ''grid-3''"

record ComponentUpdate =
  componentId :: string
  changeDescription :: string

record NewComponentSpec =
  name :: string
  description :: string
  requirements :: string
  styleHints :: "string option"

record LayoutSpec =
  type :: ScreenLayout
  sidebarComponent :: "string option"
  headerComponent :: "string option"
  footerComponent :: "string option"

record ComponentHtmlOutput =
  html :: string
  description :: string

text \<open>An optional field of the schema is an \<open>option\<close>: \<open>None\<close> is \<open>undefined\<close>.\<close>

record AgentDecision =
  action :: Action
  rationale :: string
  createBranch :: "bool option"
  updates :: "ComponentUpdate list option"
  newComponents :: "NewComponentSpec list option"
  screenOrder :: "string list option"
  regenerateSpecs :: "NewComponentSpec list option"
  layout :: "LayoutSpec option"

section \<open>Decision normalization (\<open>agent/index.ts\<close>, \<open>normalizeDecision\<close>)\<close>

definition branchKeywords :: "string list" where
  "branchKeywords =
     [''new version'', ''another version'', ''different version'', ''create a version'',
      ''branch'', ''create a branch'',
      ''copy'', ''duplicate'', ''clone'',
      ''variant'', ''alternative'',
      ''keep the original'', ''without changing the original'',
      ''try a different'', ''experiment with'',
      ''make a copy'', ''create a copy'']"

definition explicitRegenKeywords :: "string list" where
  "explicitRegenKeywords =
     [''delete everything'', ''start over'', ''start fresh'', ''completely new'',
      ''new page'', ''different page'', ''replace everything'', ''from scratch'',
      ''completely different'', ''total redesign'', ''create a new'', ''build a new'']"

text \<open>\<open>!xs || xs.length === 0\<close> and \<open>xs && xs.length > 0\<close> on an optional array.\<close>

definition absentOrEmpty :: "'a list option \<Rightarrow> bool" where
  "absentOrEmpty xs = (case xs of None \<Rightarrow> True | Some ys \<Rightarrow> ys = [])"

definition orEmpty :: "'a list option \<Rightarrow> 'a list" where
  "orEmpty xs = (case xs of None \<Rightarrow> [] | Some ys \<Rightarrow> ys)"

text \<open>
  \<open>normalizeDecision\<close> is one function of three blocks, each of which may replace the
  decision the next one reads. The blocks are defined one by one and put together below.
  First block: specs the language model put in the wrong field are moved.
\<close>

definition fixMisplacedSpecs :: "AgentDecision \<Rightarrow> AgentDecision" where
  "fixMisplacedSpecs decision =
     (if action decision = REGENERATE_SCREEN
         \<and> absentOrEmpty (regenerateSpecs decision)
         \<and> \<not> absentOrEmpty (newComponents decision)
      then decision\<lparr>regenerateSpecs := newComponents decision, newComponents := Some []\<rparr>
      else decision)"

definition hasBranchingIntent :: "(string \<Rightarrow> string) \<Rightarrow> string \<Rightarrow> string \<Rightarrow> bool" where
  "hasBranchingIntent toLowerCase userPrompt rationaleText =
     (let promptLC = toLowerCase userPrompt;
          rationaleLC = toLowerCase rationaleText
      in some branchKeywords (\<lambda>kw. includesStr promptLC kw \<or> includesStr rationaleLC kw))"

text \<open>
  Second block: \<open>createBranch\<close> is forced when a branch phrase is found.
  \<open>!decision.createBranch\<close> holds for an absent flag and for \<open>false\<close>.
\<close>

definition forceBranch :: "(string \<Rightarrow> string) \<Rightarrow> bool \<Rightarrow> string \<Rightarrow> AgentDecision \<Rightarrow> AgentDecision" where
  "forceBranch toLowerCase hasExistingComponents userPrompt decision =
     (if hasExistingComponents
         \<and> hasBranchingIntent toLowerCase userPrompt (rationale decision)
         \<and> createBranch decision \<noteq> Some True
      then decision\<lparr>createBranch := Some True\<rparr>
      else decision)"

definition isExplicitRegen :: "(string \<Rightarrow> string) \<Rightarrow> string \<Rightarrow> bool" where
  "isExplicitRegen toLowerCase rationaleText =
     (let rationaleLC = toLowerCase rationaleText
      in some explicitRegenKeywords (\<lambda>kw. includesStr rationaleLC kw))"

definition protectedRationale :: "string \<Rightarrow> string" where
  "protectedRationale r =
     ''[PROTECTED] '' @ r @ ''. Adding new components while preserving existing ones.''"

text \<open>
  Third block: the decision that replaces a regeneration with no explicit intent. The order
  is built from the decision's own \<open>screenOrder\<close> field followed by the names of the specs
  that are not already in it.
\<close>

definition protectRegeneration :: "AgentDecision \<Rightarrow> AgentDecision" where
  "protectRegeneration decision =
     (let specs = orEmpty (regenerateSpecs decision);
          existingNames = orEmpty (screenOrder decision);
          newNames = map NewComponentSpec.name specs;
          combinedOrder = existingNames @ filter (\<lambda>n. n \<notin> set existingNames) newNames
      in \<lparr>action = UPDATE_COMPONENTS,
          rationale = protectedRationale (rationale decision),
          createBranch = createBranch decision,
          updates = Some (orEmpty (updates decision)),
          newComponents = Some specs,
          screenOrder = (if combinedOrder \<noteq> [] then Some combinedOrder else None),
          regenerateSpecs = None,
          layout = layout decision\<rparr>)"

definition normalizeDecision :: "(string \<Rightarrow> string) \<Rightarrow> AgentDecision \<Rightarrow> bool \<Rightarrow> string \<Rightarrow> AgentDecision" where
  "normalizeDecision toLowerCase decision0 hasExistingComponents userPrompt =
     (let decision1 = fixMisplacedSpecs decision0;
          decision = forceBranch toLowerCase hasExistingComponents userPrompt decision1
      in if hasExistingComponents \<and> action decision = REGENERATE_SCREEN
            \<and> isExplicitRegen toLowerCase (rationale decision1)
         then decision
         else if hasExistingComponents \<and> action decision = REGENERATE_SCREEN
            \<and> \<not> isExplicitRegen toLowerCase (rationale decision1)
         then protectRegeneration decision
         else decision)"

section \<open>Session store (\<open>state/index.ts\<close>)\<close>

text \<open>
  The interfaces \<open>Component\<close>, \<open>Screen\<close>, \<open>Message\<close>, \<open>DecisionHistoryEntry\<close>,
  \<open>SessionState\<close> and \<open>SerializedSessionState\<close> are declared in \<open>lib/types\<close>; the records
  below have the fields that \<open>explanation.md\<close> lists for them and that the object literals
  of \<open>state/index.ts\<close> and \<open>agent/tools.ts\<close> fill in. A \<open>Date\<close> is a \<^typ>\<open>timestamp\<close>.
\<close>

record Component =
  id :: string
  name :: string
  description :: string
  html :: string
  lastUpdatedAt :: timestamp

record LayoutConfig =
  sidebarComponentId :: "string option"
  headerComponentId :: "string option"
  footerComponentId :: "string option"
  mainComponentIds :: "string list option"

record Screen =
  componentIds :: "string list"
  layout :: ScreenLayout
  layoutConfig :: "LayoutConfig option"

datatype Role = User | Assistant | System

record Message =
  role :: Role
  content :: string
  timestamp :: timestamp

record DecisionHistoryEntry =
  id :: string
  prompt :: string
  decision :: AgentDecision
  timestamp :: timestamp
  componentsAffected :: "string list"

record SerializedSessionState =
  id :: string
  messages :: "Message list"
  components :: "Component list"
  screen :: "Screen option"
  decisionHistory :: "DecisionHistoryEntry list"

text \<open>
  \<open>components\<close> is a JavaScript \<open>Map\<close>: an association list in insertion order.
  \<open>Map.set\<close> is \<^const>\<open>AList.update\<close> (an existing key keeps its place, a new key goes
  last), \<open>Map.get\<close> is \<^const>\<open>map_of\<close>, \<open>Map.values()\<close> is \<open>map snd\<close>, \<open>Map.clear()\<close>
  leaves \<open>[]\<close>.
\<close>

record SessionState =
  id :: string
  messages :: "Message list"
  components :: "(string \<times> Component) list"
  screen :: "Screen option"
  decisionHistory :: "DecisionHistoryEntry list"
  createdAt :: timestamp
  lastActivityAt :: timestamp

text \<open>
  The process-wide \<open>sessions\<close> map. Every operation takes the store and returns the new
  one; the clock is read once per store operation and passed in as \<open>now\<close>.
\<close>

type_synonym Store = "string \<rightharpoonup> SessionState"

definition createSession :: "Store \<Rightarrow> string \<Rightarrow> timestamp \<Rightarrow> Store \<times> SessionState" where
  "createSession st newId now =
     (let session = \<lparr>SessionState.id = newId, messages = [], components = [], screen = None,
                       decisionHistory = [], createdAt = now, lastActivityAt = now\<rparr>
      in (st(newId \<mapsto> session), session))"

text \<open>\<open>sessionId && sessions.has(sessionId)\<close>: an absent or empty identifier is falsy.\<close>

definition getOrCreateSession ::
  "Store \<Rightarrow> string option \<Rightarrow> string \<Rightarrow> timestamp \<Rightarrow> Store \<times> SessionState" where
  "getOrCreateSession st sessionId newId now =
     (case sessionId of
        None \<Rightarrow> createSession st newId now
      | Some sid \<Rightarrow>
          if sid \<noteq> [] then
            (case st sid of
               None \<Rightarrow> createSession st newId now
             | Some session0 \<Rightarrow>
                 (let session = session0\<lparr>lastActivityAt := now\<rparr>
                  in (st(sid \<mapsto> session), session)))
          else createSession st newId now)"

definition getSession :: "Store \<Rightarrow> string \<Rightarrow> SessionState option" where
  "getSession st sessionId = st sessionId"

definition addMessage ::
  "Store \<Rightarrow> string \<Rightarrow> Role \<Rightarrow> string \<Rightarrow> timestamp \<Rightarrow> Store \<times> Message option" where
  "addMessage st sessionId r c now =
     (case st sessionId of
        None \<Rightarrow> (st, None)
      | Some session \<Rightarrow>
          (let message = \<lparr>role = r, content = c, Message.timestamp = now\<rparr>
           in (st(sessionId \<mapsto> session\<lparr>messages := messages session @ [message],
                                           lastActivityAt := now\<rparr>),
               Some message)))"

definition upsertComponent :: "Store \<Rightarrow> string \<Rightarrow> Component \<Rightarrow> timestamp \<Rightarrow> Store \<times> bool" where
  "upsertComponent st sessionId component now =
     (case st sessionId of
        None \<Rightarrow> (st, False)
      | Some session \<Rightarrow>
          (st(sessionId \<mapsto> session\<lparr>
                components := AList.update (Component.id component) component (components session),
                lastActivityAt := now\<rparr>),
           True))"

definition getComponent :: "Store \<Rightarrow> string \<Rightarrow> string \<Rightarrow> Component option" where
  "getComponent st sessionId cid =
     (case st sessionId of
        None \<Rightarrow> None
      | Some session \<Rightarrow> map_of (components session) cid)"

definition updateScreen :: "Store \<Rightarrow> string \<Rightarrow> Screen \<Rightarrow> timestamp \<Rightarrow> Store \<times> bool" where
  "updateScreen st sessionId sc now =
     (case st sessionId of
        None \<Rightarrow> (st, False)
      | Some session \<Rightarrow>
          (st(sessionId \<mapsto> session\<lparr>screen := Some sc, lastActivityAt := now\<rparr>), True))"

definition addDecisionToHistory ::
  "Store \<Rightarrow> string \<Rightarrow> string \<Rightarrow> AgentDecision \<Rightarrow> string list \<Rightarrow> string \<Rightarrow> timestamp
     \<Rightarrow> Store \<times> DecisionHistoryEntry option" where
  "addDecisionToHistory st sessionId p d affected newId now =
     (case st sessionId of
        None \<Rightarrow> (st, None)
      | Some session \<Rightarrow>
          (let entry = \<lparr>DecisionHistoryEntry.id = newId, prompt = p, decision = d,
                         DecisionHistoryEntry.timestamp = now, componentsAffected = affected\<rparr>
           in (st(sessionId \<mapsto> session\<lparr>decisionHistory := decisionHistory session @ [entry],
                                           lastActivityAt := now\<rparr>),
               Some entry)))"

definition serializeSession :: "SessionState \<Rightarrow> SerializedSessionState" where
  "serializeSession session =
     \<lparr>SerializedSessionState.id = SessionState.id session,
      messages = messages session,
      components = map snd (components session),
      screen = screen session,
      decisionHistory = decisionHistory session\<rparr>"

section \<open>Agent tools (\<open>agent/tools.ts\<close>)\<close>

text \<open>
  What one request to the language model comes back with: the request throws
  (\<open>Unavailable\<close>, with the error's message), the response has no content (\<open>Empty\<close>), the
  content fails \<open>JSON.parse\<close> or the schema (\<open>Rejected\<close>, with the message of the error
  thrown), or the content validates (\<open>Parsed\<close>).
\<close>

datatype 'a Reply = Unavailable string | Empty | Rejected string | Parsed 'a

text \<open>
  One generation call as the outside world answers it: the reply, and the identifier and
  the clock reading the code obtains when the reply is processed. The body of a \<open>Parsed\<close>
  reply stands for the markup after image placeholders have been rewritten.
\<close>

record GenCall =
  reply :: "ComponentHtmlOutput Reply"
  uuid :: string
  at :: timestamp

definition generateComponentHtml :: "ComponentHtmlOutput Reply \<Rightarrow> string + (string \<times> string)" where
  "generateComponentHtml r =
     (case r of
        Unavailable msg \<Rightarrow> Inl msg
      | Empty \<Rightarrow> Inl ''No content in LLM response''
      | Rejected msg \<Rightarrow> Inl msg
      | Parsed validated \<Rightarrow>
          Inr (ComponentHtmlOutput.html validated, ComponentHtmlOutput.description validated))"

text \<open>\<open>a || b\<close> on strings: the empty string is falsy.\<close>

definition orElse :: "string \<Rightarrow> string \<Rightarrow> string" where
  "orElse a b = (if a \<noteq> [] then a else b)"

definition createComponent ::
  "Store \<Rightarrow> string \<Rightarrow> string \<Rightarrow> string \<Rightarrow> string \<Rightarrow> string option \<Rightarrow> GenCall
     \<Rightarrow> Store \<times> (string + Component)" where
  "createComponent st sessionId nm descr reqs hints call =
     (case generateComponentHtml (reply call) of
        Inl err \<Rightarrow> (st, Inl err)
      | Inr (body, updatedDesc) \<Rightarrow>
          (let component = \<lparr>Component.id = uuid call, name = nm,
                             description = orElse updatedDesc descr, html = body,
                             lastUpdatedAt = at call\<rparr>;
               (st', success) = upsertComponent st sessionId component (at call)
           in if \<not> success then (st', Inl ''Failed to save component to session'')
              else (st', Inr component)))"

text \<open>
  \<open>updateComponent\<close> reads the existing unit when it is called and writes when the reply
  arrives. \<open>updateComponentSettle\<close> is the second half, on the store as it is then.
\<close>

definition updateComponentSettle ::
  "Store \<Rightarrow> string \<Rightarrow> Component \<Rightarrow> GenCall \<Rightarrow> Store \<times> (string + Component)" where
  "updateComponentSettle st sessionId existing call =
     (case generateComponentHtml (reply call) of
        Inl err \<Rightarrow> (st, Inl err)
      | Inr (body, descr) \<Rightarrow>
          (let updated = existing\<lparr>html := body,
                                   description := orElse descr (description existing),
                                   lastUpdatedAt := at call\<rparr>;
               (st', success) = upsertComponent st sessionId updated (at call)
           in if \<not> success then (st', Inl ''Failed to save updated component'')
              else (st', Inr updated)))"

definition updateComponent ::
  "Store \<Rightarrow> string \<Rightarrow> string \<Rightarrow> string \<Rightarrow> string option \<Rightarrow> GenCall
     \<Rightarrow> Store \<times> (string + Component)" where
  "updateComponent st sessionId cid changeRequest hints call =
     (case getComponent st sessionId cid of
        None \<Rightarrow> (st, Inl (''Component '' @ cid @ '' not found''))
      | Some existing \<Rightarrow> updateComponentSettle st sessionId existing call)"

text \<open>The first identifier of the list with no unit, as the validation loop meets it.\<close>

definition composeScreen ::
  "Store \<Rightarrow> string \<Rightarrow> string list \<Rightarrow> ScreenLayout option \<Rightarrow> LayoutConfig option \<Rightarrow> timestamp
     \<Rightarrow> Store \<times> (string + Screen)" where
  "composeScreen st sessionId ids layoutArg config now =
     (case getSession st sessionId of
        None \<Rightarrow> (st, Inl ''Session not found'')
      | Some session \<Rightarrow>
          (case find (\<lambda>i. map_of (components session) i = None) ids of
             Some missing \<Rightarrow> (st, Inl (''Component '' @ missing @ '' not found''))
           | None \<Rightarrow>
               (let sc = \<lparr>componentIds = ids,
                            layout = (case layoutArg of None \<Rightarrow> Stack | Some l \<Rightarrow> l),
                            layoutConfig = config\<rparr>;
                    (st', success) = updateScreen st sessionId sc now
                in if \<not> success then (st', Inl ''Failed to update screen'')
                   else (st', Inr sc))))"

definition findComponentByName :: "(string \<Rightarrow> string) \<Rightarrow> Store \<Rightarrow> string \<Rightarrow> string \<Rightarrow> string + Component list" where
  "findComponentByName toLowerCase st sessionId nameQuery =
     (case getSession st sessionId of
        None \<Rightarrow> Inl ''Session not found''
      | Some session \<Rightarrow>
          (let query = toLowerCase nameQuery;
               matches = filter (\<lambda>c. includesStr (toLowerCase (name c)) query)
                           (map snd (components session))
           in if matches = [] then Inl (''No component found matching '' @ [CHR 0x22] @ nameQuery @ [CHR 0x22])
              else Inr matches))"

section \<open>Reference resolution (\<open>agent/index.ts\<close>)\<close>

text \<open>The pattern \<open>/^[0-9a-f-]{36}$/i\<close>: exactly 36 characters, each a hexadecimal digit or a dash.\<close>

definition looksLikeUuid :: "string \<Rightarrow> bool" where
  "looksLikeUuid reference =
     (length reference = 36 \<and> list_all (\<lambda>c. c \<in> set ''0123456789abcdefABCDEF-'') reference)"

definition resolveComponentId :: "(string \<Rightarrow> string) \<Rightarrow> Store \<Rightarrow> string \<Rightarrow> string \<Rightarrow> string option" where
  "resolveComponentId toLowerCase st sessionId reference =
     (if looksLikeUuid reference then Some reference
      else (case findComponentByName toLowerCase st sessionId reference of
              Inr (c # cs) \<Rightarrow> Some (Component.id c)
            | _ \<Rightarrow> None))"

definition resolveComponentIdFromList :: "(string \<Rightarrow> string) \<Rightarrow> Component list \<Rightarrow> string \<Rightarrow> string option" where
  "resolveComponentIdFromList toLowerCase cs nm =
     map_option Component.id (find (\<lambda>c. toLowerCase (name c) = toLowerCase nm) cs)"

section \<open>Batches of concurrent generation calls\<close>

text \<open>
  \<open>Promise.all\<close> over generation calls. Every call is started, in list order, before any
  reply arrives; a reply is processed in one uninterrupted step when it arrives, in an
  order the code does not control. \<open>Pending\<close> is a started call: a creation waiting for
  its reply, an update holding the unit it read when it started, or an update that found
  no unit under its identifier and returned at once.
\<close>

datatype Pending =
    AwaitCreate NewComponentSpec
  | AwaitUpdate Component
  | NotFound string

definition startUpdate :: "Store \<Rightarrow> string \<Rightarrow> string \<Rightarrow> Pending" where
  "startUpdate st sessionId cid =
     (case getComponent st sessionId cid of
        None \<Rightarrow> NotFound cid
      | Some existing \<Rightarrow> AwaitUpdate existing)"

definition settle :: "Store \<Rightarrow> string \<Rightarrow> Pending \<Rightarrow> GenCall \<Rightarrow> Store \<times> (string + Component)" where
  "settle st sessionId p call =
     (case p of
        AwaitCreate spec \<Rightarrow>
          createComponent st sessionId (NewComponentSpec.name spec)
            (NewComponentSpec.description spec) (requirements spec) (styleHints spec) call
      | AwaitUpdate existing \<Rightarrow> updateComponentSettle st sessionId existing call
      | NotFound cid \<Rightarrow> (st, Inl (''Component '' @ cid @ '' not found'')))"

text \<open>
  The order in which the calls of a batch of \<open>n\<close> settle, read off any list of indices:
  indices out of range and repetitions are dropped, and calls the list does not mention
  settle last, in the order they were started. Every list gives a complete order, and a
  permutation of \<open>[0..<n]\<close> gives itself.
\<close>

definition settleOrder :: "nat \<Rightarrow> nat list \<Rightarrow> nat list" where
  "settleOrder n order =
     remdups (filter (\<lambda>i. i < n) order) @ filter (\<lambda>i. i \<notin> set order) [0..<n]"

fun settleAll ::
  "Store \<Rightarrow> string \<Rightarrow> Pending list \<Rightarrow> (nat \<Rightarrow> GenCall) \<Rightarrow> nat list
     \<Rightarrow> Store \<times> (nat \<times> (string + Component)) list" where
  "settleAll st sessionId ps calls [] = (st, [])"
| "settleAll st sessionId ps calls (i # rest) =
     (let (st1, r) = settle st sessionId (ps ! i) (calls i);
          (st2, rs) = settleAll st1 sessionId ps calls rest
      in (st2, (i, r) # rs))"

text \<open>The results come back in the order the calls were started.\<close>

definition awaitAll ::
  "Store \<Rightarrow> string \<Rightarrow> Pending list \<Rightarrow> (nat \<Rightarrow> GenCall) \<Rightarrow> nat list
     \<Rightarrow> Store \<times> (string + Component) list" where
  "awaitAll st sessionId ps calls order =
     (let (st', settledLog) = settleAll st sessionId ps calls (settleOrder (length ps) order)
      in (st', map (\<lambda>i. case map_of settledLog i of Some r \<Rightarrow> r | None \<Rightarrow> Inl ''unsettled'')
                 [0..<length ps]))"

definition succeeded :: "(string + Component) list \<Rightarrow> Component list" where
  "succeeded results = List.map_filter (\<lambda>r. case r of Inl err \<Rightarrow> None | Inr c \<Rightarrow> Some c) results"

section \<open>Execution (\<open>agent/index.ts\<close>)\<close>

text \<open>\<open>x ? f(x) : other\<close> on an optional name: absent and empty names are falsy.\<close>

definition truthy :: "string option \<Rightarrow> string option" where
  "truthy x = (case x of None \<Rightarrow> None | Some i \<Rightarrow> if i \<noteq> [] then Some i else None)"

definition whenGiven :: "string option \<Rightarrow> (string \<Rightarrow> string option) \<Rightarrow> string option \<Rightarrow> string option" where
  "whenGiven x f other =
     (case x of None \<Rightarrow> other | Some n \<Rightarrow> if n \<noteq> [] then f n else other)"

definition executeRegenerate ::
  "(string \<Rightarrow> string) \<Rightarrow> Store \<Rightarrow> string \<Rightarrow> NewComponentSpec list \<Rightarrow> LayoutSpec option \<Rightarrow> (nat \<Rightarrow> GenCall) \<Rightarrow> nat list
     \<Rightarrow> timestamp \<Rightarrow> Store \<times> Component list \<times> string option" where
  "executeRegenerate toLowerCase st sessionId specs layoutSpec calls order now =
     (let (st1, results) = awaitAll st sessionId (map AwaitCreate specs) calls order;
          createdComponents = succeeded results
      in if createdComponents = [] then (st1, [], Some ''Failed to create any components'')
         else
           (let ids = map Component.id createdComponents;
                layoutType = (case layoutSpec of None \<Rightarrow> Stack | Some l \<Rightarrow> type l);
                config =
                  (case layoutSpec of
                     None \<Rightarrow> None
                   | Some l \<Rightarrow>
                       Some \<lparr>sidebarComponentId =
                               whenGiven (sidebarComponent l)
                                 (resolveComponentIdFromList toLowerCase createdComponents) None,
                             headerComponentId =
                               whenGiven (headerComponent l)
                                 (resolveComponentIdFromList toLowerCase createdComponents) None,
                             footerComponentId =
                               whenGiven (footerComponent l)
                                 (resolveComponentIdFromList toLowerCase createdComponents) None,
                             mainComponentIds = None\<rparr>);
                (st2, screenResult) = composeScreen st1 sessionId ids (Some layoutType) config now
            in case screenResult of
                 Inl err \<Rightarrow> (st2, createdComponents, Some (''Failed to compose screen: '' @ err))
               | Inr sc \<Rightarrow> (st2, createdComponents, None)))"

text \<open>
  The session object read at the start is the one in the store, so the reads after the
  batch see the store as the batch left it; the session of a running call is never
  removed, and the second \<open>None\<close> case below is not taken.
\<close>

definition executeUpdate ::
  "(string \<Rightarrow> string) \<Rightarrow> Store \<Rightarrow> string \<Rightarrow> AgentDecision \<Rightarrow> (nat \<Rightarrow> GenCall) \<Rightarrow> nat list \<Rightarrow> timestamp
     \<Rightarrow> Store \<times> string option" where
  "executeUpdate toLowerCase st sessionId d calls order now =
     (case getSession st sessionId of
        None \<Rightarrow> (st, Some ''Session not found'')
      | Some session0 \<Rightarrow>
          (let updateOps =
                 List.map_filter
                   (\<lambda>u. map_option (startUpdate st sessionId)
                          (truthy (resolveComponentId toLowerCase st sessionId (componentId u))))
                   (orEmpty (updates d));
               createOps = map AwaitCreate (orEmpty (newComponents d));
               (st1, results) = awaitAll st sessionId (updateOps @ createOps) calls order;
               newComps = succeeded (drop (length updateOps) results)
           in case getSession st1 sessionId of
                None \<Rightarrow> (st1, Some ''Session not found'')
              | Some session \<Rightarrow>
                  (let allComponents = map snd (components session) @ newComps;
                       oldConfig = (case screen session of None \<Rightarrow> None | Some sc \<Rightarrow> layoutConfig sc);
                       old = (\<lambda>field. case oldConfig of None \<Rightarrow> None | Some c \<Rightarrow> field c);
                       layoutType =
                         (case AgentDecision.layout d of
                            Some l \<Rightarrow> type l
                          | None \<Rightarrow> (case screen session of None \<Rightarrow> Stack | Some sc \<Rightarrow> layout sc));
                       config =
                         (case AgentDecision.layout d of
                            None \<Rightarrow> oldConfig
                          | Some l \<Rightarrow>
                              Some \<lparr>sidebarComponentId =
                                      whenGiven (sidebarComponent l)
                                        (resolveComponentIdFromList toLowerCase allComponents)
                                        (old sidebarComponentId),
                                    headerComponentId =
                                      whenGiven (headerComponent l)
                                        (resolveComponentIdFromList toLowerCase allComponents)
                                        (old headerComponentId),
                                    footerComponentId =
                                      whenGiven (footerComponent l)
                                        (resolveComponentIdFromList toLowerCase allComponents)
                                        (old footerComponentId),
                                    mainComponentIds = None\<rparr>);
                       compose = (\<lambda>ids. fst (composeScreen st1 sessionId ids (Some layoutType) config now))
                   in if \<not> absentOrEmpty (screenOrder d) then
                        (let orderedIds =
                               List.map_filter
                                 (\<lambda>nameOrId.
                                    case find (\<lambda>c. toLowerCase (name c) = toLowerCase nameOrId) newComps of
                                      Some newComp \<Rightarrow> Some (Component.id newComp)
                                    | None \<Rightarrow> truthy (resolveComponentId toLowerCase st1 sessionId nameOrId))
                                 (orEmpty (screenOrder d))
                         in if orderedIds \<noteq> [] then (compose orderedIds, None) else (st1, None))
                      else if newComps \<noteq> [] \<and> screen session \<noteq> None then
                        (compose (orEmpty (map_option componentIds (screen session))
                                   @ map Component.id newComps), None)
                      else if newComps \<noteq> [] then (compose (map Component.id newComps), None)
                      else if AgentDecision.layout d \<noteq> None \<and> screen session \<noteq> None then
                        (compose (orEmpty (map_option componentIds (screen session))), None)
                      else (st1, None))))"

section \<open>Decision making (\<open>agent/prompts.ts\<close>, \<open>agent/index.ts\<close>)\<close>

text \<open>
  The user message \<open>formatStateForDecision\<close> writes, as the data it interpolates: the
  state section (one line per unit with its name and description, the screen order, the
  layout), present when there are units; the recent conversation, present when the
  history is not empty; the new request.
\<close>

record StateSection =
  existingComponents :: "(string \<times> string) list"
  currentScreenOrder :: "string list"
  currentLayoutShown :: string

record DecisionContext =
  currentState :: "StateSection option"
  recentConversation :: "(Role \<times> string) list"
  newRequest :: string

definition formatStateForDecision ::
  "string \<Rightarrow> (Role \<times> string) list \<Rightarrow> Component list \<Rightarrow> string list \<Rightarrow> string option
     \<Rightarrow> DecisionContext" where
  "formatStateForDecision userPrompt messageHistory comps screenOrderNames currentLayout =
     \<lparr>currentState =
        (if comps \<noteq> [] then
           Some \<lparr>existingComponents = map (\<lambda>c. (name c, description c)) comps,
                 currentScreenOrder = screenOrderNames,
                 currentLayoutShown =
                   (case currentLayout of None \<Rightarrow> ''stack'' | Some l \<Rightarrow> orElse l ''stack'')\<rparr>
         else None),
      recentConversation = (if messageHistory \<noteq> [] then sliceLast 6 messageHistory else []),
      newRequest = userPrompt\<rparr>"

text \<open>
  The context \<open>makeDecision\<close> prepares and the message it sends. The call passes four
  arguments; the fifth parameter of \<open>formatStateForDecision\<close>, the layout, is left out.
\<close>

definition screenOrderNames :: "SessionState \<Rightarrow> string list" where
  "screenOrderNames session =
     (case screen session of
        None \<Rightarrow> []
      | Some sc \<Rightarrow>
          map (\<lambda>i. case map_of (components session) i of
                     None \<Rightarrow> i
                   | Some c \<Rightarrow> orElse (name c) i)
            (componentIds sc))"

definition decisionUserMessage :: "SessionState \<Rightarrow> string \<Rightarrow> DecisionContext" where
  "decisionUserMessage session userPrompt =
     (let comps = map snd (components session);
          order = screenOrderNames session;
          messageHistory = map (\<lambda>m. (role m, content m)) (sliceLast 10 (messages session))
      in formatStateForDecision userPrompt messageHistory comps order None)"

text \<open>
  The reasoning service is a function from the message it is sent to its reply, one for
  the first request and one for the request that follows a rejected reply.
\<close>

definition makeDecision ::
  "(string \<Rightarrow> string) \<Rightarrow> Store \<Rightarrow> string \<Rightarrow> string \<Rightarrow> (DecisionContext \<Rightarrow> AgentDecision Reply)
     \<Rightarrow> (DecisionContext \<Rightarrow> AgentDecision Reply) \<Rightarrow> string + AgentDecision" where
  "makeDecision toLowerCase st userPrompt sessionId firstAttempt retryAttempt =
     (case getSession st sessionId of
        None \<Rightarrow> Inl ''Session not found''
      | Some session \<Rightarrow>
          (let hasExistingComponents = (map snd (components session) \<noteq> []);
               userMessage = decisionUserMessage session userPrompt
           in case firstAttempt userMessage of
                Unavailable msg \<Rightarrow> Inl msg
              | Empty \<Rightarrow> Inl ''No content in decision response''
              | Parsed validated \<Rightarrow> Inr (normalizeDecision toLowerCase validated hasExistingComponents userPrompt)
              | Rejected firstError \<Rightarrow>
                  (case retryAttempt userMessage of
                     Unavailable msg \<Rightarrow> Inl msg
                   | Empty \<Rightarrow> Inl ''No content in retry response''
                   | Parsed validated \<Rightarrow>
                       Inr (normalizeDecision toLowerCase validated hasExistingComponents userPrompt)
                   | Rejected secondError \<Rightarrow>
                       Inl (''Failed to parse agent decision after retry: '' @ secondError))))"

section \<open>The agent entry point (\<open>agent/index.ts\<close>, \<open>runAgent\<close>)\<close>

definition getComponentsAffected :: "AgentDecision \<Rightarrow> string list" where
  "getComponentsAffected d =
     map componentId (orEmpty (updates d))
     @ map NewComponentSpec.name (orEmpty (newComponents d))
     @ map NewComponentSpec.name (orEmpty (regenerateSpecs d))"

fun join :: "string \<Rightarrow> string list \<Rightarrow> string" where
  "join sep [] = []"
| "join sep [x] = x"
| "join sep (x # y # rest) = x @ sep @ join sep (y # rest)"

definition formatAssistantResponse :: "AgentDecision \<Rightarrow> string" where
  "formatAssistantResponse d =
     (if action d = REGENERATE_SCREEN then
        ''Created a new screen with components: ''
          @ join '', '' (map NewComponentSpec.name (orEmpty (regenerateSpecs d)))
          @ ''. '' @ rationale d
      else
        (let parts =
               (if \<not> absentOrEmpty (updates d)
                then [''Updated: '' @ join '', '' (map componentId (orEmpty (updates d)))] else [])
               @ (if \<not> absentOrEmpty (newComponents d)
                  then [''Added: ''
                          @ join '', '' (map NewComponentSpec.name (orEmpty (newComponents d)))]
                  else [])
               @ (if \<not> absentOrEmpty (screenOrder d) then [''Reordered screen''] else [])
         in if parts \<noteq> [] then join ''. '' parts @ ''. '' @ rationale d else rationale d))"

text \<open>Everything one call of \<open>runAgent\<close> takes from outside the program.\<close>

record Env =
  newSessionId :: string
  tEnter :: timestamp
  tUserMessage :: timestamp
  firstReply :: "DecisionContext \<Rightarrow> AgentDecision Reply"
  retryReply :: "DecisionContext \<Rightarrow> AgentDecision Reply"
  genCalls :: "nat \<Rightarrow> GenCall"
  settledIn :: "nat list"
  tCompose :: timestamp
  tAssistantMessage :: timestamp
  newHistoryId :: string
  tHistory :: timestamp

record AgentResult =
  success :: bool
  session :: SerializedSessionState
  rationale :: "string option"
  error :: "string option"
  decision :: "AgentDecision option"

definition emptyView :: SerializedSessionState where
  "emptyView = \<lparr>SerializedSessionState.id = [], messages = [], components = [], screen = None,
                 decisionHistory = []\<rparr>"

text \<open>
  The live session object, serialized as it is in the store at that moment. The session
  of a running call is never removed, so the second case is not taken.
\<close>

definition viewOf :: "Store \<Rightarrow> string \<Rightarrow> SerializedSessionState" where
  "viewOf st sessionId =
     (case getSession st sessionId of Some s \<Rightarrow> serializeSession s | None \<Rightarrow> emptyView)"

text \<open>The \<open>catch\<close> block: it looks the session up under the identifier the caller gave.\<close>

definition caught :: "Store \<Rightarrow> string option \<Rightarrow> string \<Rightarrow> AgentResult" where
  "caught st sessionId msg =
     \<lparr>success = False,
      session =
        (case sessionId of
           None \<Rightarrow> emptyView
         | Some sid \<Rightarrow> if sid \<noteq> [] then viewOf st sid else emptyView),
      rationale = None, error = Some msg, decision = None\<rparr>"

definition clearForRegeneration :: "Store \<Rightarrow> string \<Rightarrow> Store" where
  "clearForRegeneration st sessionId =
     (case st sessionId of
        None \<Rightarrow> st
      | Some s \<Rightarrow> st(sessionId \<mapsto> s\<lparr>components := [], screen := None\<rparr>))"

definition recordOutcome :: "Store \<Rightarrow> string \<Rightarrow> string \<Rightarrow> AgentDecision \<Rightarrow> Env \<Rightarrow> Store \<times> AgentResult" where
  "recordOutcome st sessionId userPrompt d env =
     (let (st1, m) = addMessage st sessionId Assistant (formatAssistantResponse d)
                       (tAssistantMessage env);
          (st2, e) = addDecisionToHistory st1 sessionId userPrompt d (getComponentsAffected d)
                       (newHistoryId env) (tHistory env)
      in (st2, \<lparr>success = True, session = viewOf st2 sessionId,
                 rationale = Some (AgentDecision.rationale d), error = None, decision = Some d\<rparr>))"

definition failed :: "Store \<Rightarrow> string \<Rightarrow> AgentDecision \<Rightarrow> string \<Rightarrow> AgentResult" where
  "failed st sessionId d err =
     \<lparr>success = False, session = viewOf st sessionId,
      rationale = Some (AgentDecision.rationale d), error = Some err, decision = None\<rparr>"

definition runAgent :: "(string \<Rightarrow> string) \<Rightarrow> Store \<Rightarrow> string \<Rightarrow> string option \<Rightarrow> Env \<Rightarrow> Store \<times> AgentResult" where
  "runAgent toLowerCase st0 userPrompt sessionId env =
     (let (st1, session0) = getOrCreateSession st0 sessionId (newSessionId env) (tEnter env);
          actualSessionId = SessionState.id session0;
          (st2, m) = addMessage st1 actualSessionId User userPrompt (tUserMessage env)
      in case makeDecision toLowerCase st2 userPrompt actualSessionId (firstReply env) (retryReply env) of
           Inl msg \<Rightarrow> (st2, caught st2 sessionId msg)
         | Inr d \<Rightarrow>
             if action d = REGENERATE_SCREEN then
               if absentOrEmpty (regenerateSpecs d) then
                 (st2, \<lparr>success = False, session = viewOf st2 actualSessionId, rationale = None,
                         error = Some ''REGENERATE_SCREEN requires regenerateSpecs'',
                         decision = None\<rparr>)
               else
                 (let st3 = clearForRegeneration st2 actualSessionId;
                      (st4, created, err) =
                        executeRegenerate toLowerCase st3 actualSessionId (orEmpty (regenerateSpecs d))
                          (AgentDecision.layout d) (genCalls env) (settledIn env) (tCompose env)
                  in case err of
                       Some e \<Rightarrow> (st4, failed st4 actualSessionId d e)
                     | None \<Rightarrow> recordOutcome st4 actualSessionId userPrompt d env)
             else
               (let (st3, err) =
                      executeUpdate toLowerCase st2 actualSessionId d (genCalls env) (settledIn env) (tCompose env)
                in case err of
                     Some e \<Rightarrow> (st3, failed st3 actualSessionId d e)
                   | None \<Rightarrow> recordOutcome st3 actualSessionId userPrompt d env))"

section \<open>Vocabulary for the properties\<close>

text \<open>
  A lower-casing function that is the ASCII one on ASCII text, as that of the runtime is.
\<close>

definition agreesOnAscii :: "(string \<Rightarrow> string) \<Rightarrow> bool" where
  "agreesOnAscii lc = (\<forall>s. isAscii s \<longrightarrow> lc s = asciiLowerCase s)"

text \<open>A generation call succeeds when its reply validates.\<close>

definition generationSucceeds :: "GenCall \<Rightarrow> bool" where
  "generationSucceeds call = (case reply call of Parsed out \<Rightarrow> True | _ \<Rightarrow> False)"

text \<open>The unit a creation writes when its call succeeds.\<close>

definition createdUnit :: "NewComponentSpec \<Rightarrow> GenCall \<Rightarrow> ComponentHtmlOutput \<Rightarrow> Component" where
  "createdUnit spec call out =
     \<lparr>Component.id = uuid call, name = NewComponentSpec.name spec,
      description = orElse (ComponentHtmlOutput.description out) (NewComponentSpec.description spec),
      html = ComponentHtmlOutput.html out, lastUpdatedAt = at call\<rparr>"

text \<open>
  What a started call returns, and what it does to the session when it settles: a
  successful call writes its unit under the unit's identifier, a failed one writes nothing.
\<close>

definition outcome :: "Pending \<Rightarrow> GenCall \<Rightarrow> string + Component" where
  "outcome p call =
     (case p of
        NotFound cid \<Rightarrow> Inl (''Component '' @ cid @ '' not found'')
      | AwaitCreate spec \<Rightarrow>
          (case reply call of
             Parsed out \<Rightarrow> Inr (createdUnit spec call out)
           | Unavailable msg \<Rightarrow> Inl msg
           | Empty \<Rightarrow> Inl ''No content in LLM response''
           | Rejected msg \<Rightarrow> Inl msg)
      | AwaitUpdate existing \<Rightarrow>
          (case reply call of
             Parsed out \<Rightarrow>
               Inr (existing\<lparr>html := ComponentHtmlOutput.html out,
                              description := orElse (ComponentHtmlOutput.description out)
                                               (description existing),
                              lastUpdatedAt := at call\<rparr>)
           | Unavailable msg \<Rightarrow> Inl msg
           | Empty \<Rightarrow> Inl ''No content in LLM response''
           | Rejected msg \<Rightarrow> Inl msg))"

definition written :: "SessionState \<Rightarrow> string + Component \<Rightarrow> timestamp \<Rightarrow> SessionState" where
  "written s r now =
     (case r of
        Inl err \<Rightarrow> s
      | Inr c \<Rightarrow> s\<lparr>components := AList.update (Component.id c) c (components s),
                     lastActivityAt := now\<rparr>)"

text \<open>The session after the calls listed have settled, in that order.\<close>

definition afterSettling ::
  "SessionState \<Rightarrow> Pending list \<Rightarrow> (nat \<Rightarrow> GenCall) \<Rightarrow> nat list \<Rightarrow> SessionState" where
  "afterSettling s ps calls settledIndices =
     foldl (\<lambda>s' i. written s' (outcome (ps ! i) (calls i)) (at (calls i))) s settledIndices"

text \<open>
  Every session is stored under its own identifier: \<open>createSession\<close> is the only writer of
  keys and uses the identifier of the session it creates.
\<close>

definition keyed :: "Store \<Rightarrow> bool" where
  "keyed st = (\<forall>k s. st k = Some s \<longrightarrow> SessionState.id s = k)"

text \<open>The session \<open>createSession\<close> makes.\<close>

definition freshSession :: "string \<Rightarrow> timestamp \<Rightarrow> SessionState" where
  "freshSession newId now =
     \<lparr>SessionState.id = newId, messages = [], components = [], screen = None,
      decisionHistory = [], createdAt = now, lastActivityAt = now\<rparr>"

text \<open>The session once the user's prompt has been logged.\<close>

definition prompted :: "SessionState \<Rightarrow> string \<Rightarrow> Env \<Rightarrow> SessionState" where
  "prompted s userPrompt env =
     s\<lparr>messages := messages s @ [\<lparr>role = User, content = userPrompt,
                                      Message.timestamp = tUserMessage env\<rparr>],
       lastActivityAt := tUserMessage env\<rparr>"

section \<open>Example data\<close>

definition idHeader :: string where
  "idHeader = ''11111111-1111-4111-8111-111111111111''"

definition idHeaderSection :: string where
  "idHeaderSection = ''22222222-2222-4222-8222-222222222222''"

definition idFooter :: string where
  "idFooter = ''33333333-3333-4333-8333-333333333333''"

definition idHero :: string where
  "idHero = ''44444444-4444-4444-8444-444444444444''"

definition exHeader :: Component where
  "exHeader = \<lparr>Component.id = idHeader, name = ''Header'', description = ''Top bar'',
                html = ''<header>Acme</header>'', lastUpdatedAt = 1\<rparr>"

definition exHeaderSection :: Component where
  "exHeaderSection = \<lparr>Component.id = idHeaderSection, name = ''Header Section'',
                       description = ''Band under the top bar'',
                       html = ''<section>Welcome</section>'', lastUpdatedAt = 2\<rparr>"

definition exFooter :: Component where
  "exFooter = \<lparr>Component.id = idFooter, name = ''Footer'', description = ''Links'',
                html = ''<footer>Contact</footer>'', lastUpdatedAt = 3\<rparr>"

text \<open>A session holding Header and Footer, composed in that order.\<close>

definition exSession :: SessionState where
  "exSession =
     \<lparr>SessionState.id = ''s1'', messages = [],
      components = [(idHeader, exHeader), (idFooter, exFooter)],
      screen = Some \<lparr>componentIds = [idHeader, idFooter], layout = SidebarLeft,
                      layoutConfig = None\<rparr>,
      decisionHistory = [], createdAt = 0, lastActivityAt = 3\<rparr>"

definition exStore :: Store where
  "exStore = Map.empty(''s1'' \<mapsto> exSession)"

definition heroSpec :: NewComponentSpec where
  "heroSpec = \<lparr>NewComponentSpec.name = ''Hero'', description = ''Large banner'',
                requirements = ''Headline and call to action'', styleHints = None\<rparr>"

definition exRefresh :: AgentDecision where
  "exRefresh =
     \<lparr>action = REGENERATE_SCREEN, rationale = ''Let'' @ [CHR 0x27] @ ''s refresh the page'',
      createBranch = None, updates = None, newComponents = None,
      screenOrder = None, regenerateSpecs = Some [heroSpec], layout = None\<rparr>"

definition exScratch :: AgentDecision where
  "exScratch =
     \<lparr>action = REGENERATE_SCREEN, rationale = ''The user wants to start from scratch'',
      createBranch = None, updates = None, newComponents = None,
      screenOrder = None, regenerateSpecs = Some [heroSpec], layout = None\<rparr>"

definition exDarker :: AgentDecision where
  "exDarker =
     \<lparr>action = UPDATE_COMPONENTS, rationale = ''Restyle the header'',
      createBranch = None,
      updates = Some [\<lparr>componentId = ''header'', changeDescription = ''dark mode''\<rparr>],
      newComponents = None, screenOrder = None, regenerateSpecs = None, layout = None\<rparr>"

definition ghostConfig :: LayoutConfig where
  "ghostConfig = \<lparr>sidebarComponentId = None, headerComponentId = Some ''ghost'',
                   footerComponentId = None, mainComponentIds = None\<rparr>"

text \<open>A session with no units, and two generation calls that succeed.\<close>

definition emptySession :: SessionState where
  "emptySession =
     \<lparr>SessionState.id = ''s0'', messages = [], components = [], screen = None,
      decisionHistory = [], createdAt = 0, lastActivityAt = 0\<rparr>"

definition emptyStore :: Store where
  "emptyStore = Map.empty(''s0'' \<mapsto> emptySession)"

definition callHeader :: GenCall where
  "callHeader = \<lparr>reply = Parsed \<lparr>ComponentHtmlOutput.html = ''<header>Acme</header>'',
                                    description = ''Top bar''\<rparr>,
                  uuid = idHeader, at = 1\<rparr>"

definition callHeaderSection :: GenCall where
  "callHeaderSection = \<lparr>reply = Parsed \<lparr>ComponentHtmlOutput.html = ''<section>Welcome</section>'',
                                           description = []\<rparr>,
                         uuid = idHeaderSection, at = 2\<rparr>"

definition callFailing :: GenCall where
  "callFailing = \<lparr>reply = Rejected ''Unexpected token'', uuid = idFooter, at = 3\<rparr>"

text \<open>Header is created first, Header Section second.\<close>

definition twoHeaders :: Store where
  "twoHeaders =
     fst (createComponent
            (fst (createComponent emptyStore ''s0'' ''Header'' ''Top bar'' ''Logo and links'' None
                    callHeader))
            ''s0'' ''Header Section'' ''Band under the top bar'' ''Greeting'' None
            callHeaderSection)"

definition allFailing :: "nat \<Rightarrow> GenCall" where
  "allFailing i = callFailing"

text \<open>The outside world of a call of the agent whose decision fails, and of one whose generations fail.\<close>

definition envRejecting :: Env where
  "envRejecting =
     \<lparr>newSessionId = ''s9'', tEnter = 10, tUserMessage = 11,
      firstReply = (\<lambda>ctx. Rejected ''Unexpected token''),
      retryReply = (\<lambda>ctx. Rejected ''Required: action''),
      genCalls = allFailing, settledIn = [],
      tCompose = 12, tAssistantMessage = 13, newHistoryId = ''h1'', tHistory = 14\<rparr>"

definition envScratchFailing :: Env where
  "envScratchFailing =
     \<lparr>newSessionId = ''s9'', tEnter = 10, tUserMessage = 11,
      firstReply = (\<lambda>ctx. Parsed exScratch),
      retryReply = (\<lambda>ctx. Empty),
      genCalls = allFailing, settledIn = [],
      tCompose = 12, tAssistantMessage = 13, newHistoryId = ''h1'', tHistory = 14\<rparr>"

text \<open>
  The reasoning service answers with the regeneration \<open>exRefresh\<close>; the one generation call
  succeeds.
\<close>

definition callHero :: GenCall where
  "callHero = \<lparr>reply = Parsed \<lparr>ComponentHtmlOutput.html = ''<section>Big news</section>'',
                                  description = ''Large banner''\<rparr>,
                uuid = idHero, at = 12\<rparr>"

definition envRefresh :: Env where
  "envRefresh =
     \<lparr>newSessionId = ''s9'', tEnter = 10, tUserMessage = 11,
      firstReply = (\<lambda>ctx. Parsed exRefresh),
      retryReply = (\<lambda>ctx. Empty),
      genCalls = (\<lambda>i. callHero), settledIn = [0],
      tCompose = 13, tAssistantMessage = 14, newHistoryId = ''h1'', tHistory = 15\<rparr>"

text \<open>Five specs; the calls for the second and the fourth fail; the fifth settles first.\<close>

definition fiveSpecs :: "NewComponentSpec list" where
  "fiveSpecs =
     map (\<lambda>n. \<lparr>NewComponentSpec.name = n, description = ''Part of the page'',
                 requirements = ''Plain'', styleHints = None\<rparr>)
       [''Nav'', ''Hero'', ''Features'', ''Pricing'', ''Footer'']"

definition fiveCalls :: "nat \<Rightarrow> GenCall" where
  "fiveCalls i =
     \<lparr>reply = (if i = 1 then Unavailable ''Connection error''
               else if i = 3 then Rejected ''Required: html''
               else Parsed \<lparr>ComponentHtmlOutput.html = ''<div></div>'', description = []\<rparr>),
      uuid = ''unit-'' @ replicate (Suc i) (CHR ''x''),
      at = 20 + i\<rparr>"

section \<open>Normalization: the fields each block touches\<close>

lemma fixMisplacedSpecs_fields:
  "action (fixMisplacedSpecs d) = action d"
  "AgentDecision.rationale (fixMisplacedSpecs d) = AgentDecision.rationale d"
  "createBranch (fixMisplacedSpecs d) = createBranch d"
  "updates (fixMisplacedSpecs d) = updates d"
  "screenOrder (fixMisplacedSpecs d) = screenOrder d"
  "AgentDecision.layout (fixMisplacedSpecs d) = AgentDecision.layout d"
  by (simp_all add: fixMisplacedSpecs_def)

lemma forceBranch_fields:
  "action (forceBranch lc h p d) = action d"
  "AgentDecision.rationale (forceBranch lc h p d) = AgentDecision.rationale d"
  "updates (forceBranch lc h p d) = updates d"
  "newComponents (forceBranch lc h p d) = newComponents d"
  "regenerateSpecs (forceBranch lc h p d) = regenerateSpecs d"
  "screenOrder (forceBranch lc h p d) = screenOrder d"
  "AgentDecision.layout (forceBranch lc h p d) = AgentDecision.layout d"
  by (simp_all add: forceBranch_def)

lemma forceBranch_createBranch:
  "createBranch (forceBranch lc h p d) =
     (if h \<and> hasBranchingIntent lc p (AgentDecision.rationale d) \<and> createBranch d \<noteq> Some True
      then Some True else createBranch d)"
  by (simp add: forceBranch_def)

lemma hasBranchingIntentI:
  "kw \<in> set branchKeywords \<Longrightarrow>
   includesStr (lc p) kw \<or> includesStr (lc r) kw \<Longrightarrow> hasBranchingIntent lc p r"
  by (auto simp: hasBranchingIntent_def some_def list_ex_iff)

lemma normalizeDecision_createBranch:
  "createBranch (normalizeDecision lc d h p) = createBranch (forceBranch lc h p (fixMisplacedSpecs d))"
  by (simp add: normalizeDecision_def Let_def protectRegeneration_def)

text \<open>
  With the ASCII lower-casing, a phrase is contained in the lower-cased text exactly when
  some stretch of the text lower-cases to the phrase: containment up to the case of ASCII
  letters.
\<close>

lemma includes_lower_iff:
  "includesStr (asciiLowerCase s) kw \<longleftrightarrow> (\<exists>u. sublist u s \<and> asciiLowerCase u = kw)"
proof
  assume "includesStr (asciiLowerCase s) kw"
  then have "sublist kw (map lowerChar s)"
    by (simp add: includesStr_def asciiLowerCase_def)
  then show "\<exists>u. sublist u s \<and> asciiLowerCase u = kw"
    unfolding asciiLowerCase_def by (metis sublist_map_rightE)
next
  assume "\<exists>u. sublist u s \<and> asciiLowerCase u = kw"
  then obtain u ps ss where "s = ps @ u @ ss" "map lowerChar u = kw"
    unfolding asciiLowerCase_def sublist_def by blast
  then have "map lowerChar s = map lowerChar ps @ kw @ map lowerChar ss"
    by simp
  then have "sublist kw (map lowerChar s)"
    unfolding sublist_def by (intro exI)
  then show "includesStr (asciiLowerCase s) kw"
    by (simp add: includesStr_def asciiLowerCase_def)
qed

text \<open>The ASCII lower-casing keeps the length, and only ASCII text lower-cases to ASCII text.\<close>

lemma length_asciiLowerCase: "length (asciiLowerCase s) = length s"
  by (simp add: asciiLowerCase_def)

lemma lowerChar_ascii:
  "(of_char (lowerChar c) :: nat) < 128 \<Longrightarrow> (of_char c :: nat) < 128"
  by (auto simp: lowerChar_def split: option.splits if_splits)

lemma asciiLowerCase_ascii: "isAscii (asciiLowerCase s) \<Longrightarrow> isAscii s"
  by (induction s) (auto simp: isAscii_def asciiLowerCase_def lowerChar_ascii)

lemma agreesOnAscii_asciiLowerCase: "agreesOnAscii asciiLowerCase"
  by (simp add: agreesOnAscii_def)

section \<open>Branch-intent detection\<close>

text \<open>
  C6. When the session has units and the lower-cased prompt or the lower-cased rationale
  contains a phrase of the branch vocabulary while the branch flag is not set (absent or
  false), the normalized decision has the flag set to true. When the flag is already true,
  or the session has no units, the branch block returns the decision it was given and the
  normalized decision carries the flag of the original.
\<close>

theorem branch_intent_detection:
  fixes d :: AgentDecision
  shows "(hasExisting \<and> kw \<in> set branchKeywords
            \<and> (includesStr (lc userPrompt) kw
                 \<or> includesStr (lc (AgentDecision.rationale d)) kw)
            \<and> createBranch d \<noteq> Some True
          \<longrightarrow> createBranch (normalizeDecision lc d hasExisting userPrompt) = Some True)
       \<and> (createBranch d = Some True \<or> \<not> hasExisting
          \<longrightarrow> forceBranch lc hasExisting userPrompt (fixMisplacedSpecs d) = fixMisplacedSpecs d
              \<and> createBranch (normalizeDecision lc d hasExisting userPrompt) = createBranch d)"
proof (intro conjI impI)
  assume a: "hasExisting \<and> kw \<in> set branchKeywords
            \<and> (includesStr (lc userPrompt) kw
                 \<or> includesStr (lc (AgentDecision.rationale d)) kw)
            \<and> createBranch d \<noteq> Some True"
  then have "hasBranchingIntent lc userPrompt (AgentDecision.rationale d)"
    using hasBranchingIntentI by blast
  with a have "createBranch (forceBranch lc hasExisting userPrompt (fixMisplacedSpecs d)) = Some True"
    by (simp add: forceBranch_createBranch fixMisplacedSpecs_fields)
  then show "createBranch (normalizeDecision lc d hasExisting userPrompt) = Some True"
    by (simp only: normalizeDecision_createBranch)
next
  assume a: "createBranch d = Some True \<or> \<not> hasExisting"
  then show b: "forceBranch lc hasExisting userPrompt (fixMisplacedSpecs d) = fixMisplacedSpecs d"
    by (auto simp: forceBranch_def fixMisplacedSpecs_fields)
  show "createBranch (normalizeDecision lc d hasExisting userPrompt) = createBranch d"
    by (simp add: normalizeDecision_createBranch b fixMisplacedSpecs_fields)
qed

text \<open>
  The prompt "create a duplicate with dark mode" against a session with units and a
  decision without the flag; the same decision against a session with no units.
\<close>

theorem branch_intent_detection_witness:
  "createBranch (normalizeDecision asciiLowerCase exDarker True ''create a duplicate with dark mode'') = Some True
   \<and> createBranch (normalizeDecision asciiLowerCase exDarker False ''create a duplicate with dark mode'') = None"
proof -
  have k: "''duplicate'' \<in> set branchKeywords"
    by (simp add: branchKeywords_def)
  have i: "includesStr (asciiLowerCase ''create a duplicate with dark mode'') ''duplicate''"
    by code_simp
  have f: "createBranch exDarker \<noteq> Some True" "createBranch exDarker = None"
    by (simp_all add: exDarker_def)
  show ?thesis
    using branch_intent_detection [of True "''duplicate''" asciiLowerCase "''create a duplicate with dark mode''" exDarker]
      branch_intent_detection [of False "''duplicate''" asciiLowerCase "''create a duplicate with dark mode''" exDarker]
      k i f by simp
qed

lemma fixMisplacedSpecs_specs:
  "regenerateSpecs (fixMisplacedSpecs d) =
     (if action d = REGENERATE_SCREEN \<and> absentOrEmpty (regenerateSpecs d)
         \<and> \<not> absentOrEmpty (newComponents d)
      then newComponents d else regenerateSpecs d)"
  "newComponents (fixMisplacedSpecs d) =
     (if action d = REGENERATE_SCREEN \<and> absentOrEmpty (regenerateSpecs d)
         \<and> \<not> absentOrEmpty (newComponents d)
      then Some [] else newComponents d)"
  by (simp_all add: fixMisplacedSpecs_def)

lemma normalizeDecision_explicit:
  "h \<Longrightarrow> action d = REGENERATE_SCREEN \<Longrightarrow> isExplicitRegen lc (AgentDecision.rationale d) \<Longrightarrow>
   normalizeDecision lc d h p = forceBranch lc h p (fixMisplacedSpecs d)"
  by (simp add: normalizeDecision_def Let_def forceBranch_fields fixMisplacedSpecs_fields)

lemma normalizeDecision_protected:
  "h \<Longrightarrow> action d = REGENERATE_SCREEN \<Longrightarrow> \<not> isExplicitRegen lc (AgentDecision.rationale d) \<Longrightarrow>
   normalizeDecision lc d h p = protectRegeneration (forceBranch lc h p (fixMisplacedSpecs d))"
  by (simp add: normalizeDecision_def Let_def forceBranch_fields fixMisplacedSpecs_fields)

section \<open>Explicit regeneration\<close>

text \<open>
  C5, as the code has it. For a session with units, a regeneration whose lower-cased
  rationale contains an explicit-intent phrase keeps its action, rationale, updates, screen
  order and layout. The two earlier blocks still apply: the branch flag becomes true when
  a branch phrase occurs in the prompt or the rationale and the flag was not set, and the
  new-components list is moved into the regeneration specs when those are absent or empty
  and the list is not. When neither applies the decision comes back unchanged.
\<close>

theorem explicit_regeneration_passthrough:
  fixes d :: AgentDecision
  assumes "hasExisting" and "action d = REGENERATE_SCREEN"
    and "isExplicitRegen lc (AgentDecision.rationale d)"
  shows "let r = normalizeDecision lc d hasExisting userPrompt;
             misplaced = (absentOrEmpty (regenerateSpecs d) \<and> \<not> absentOrEmpty (newComponents d));
             branching = (hasBranchingIntent lc userPrompt (AgentDecision.rationale d)
                          \<and> createBranch d \<noteq> Some True)
         in action r = REGENERATE_SCREEN
       \<and> AgentDecision.rationale r = AgentDecision.rationale d
       \<and> updates r = updates d
       \<and> screenOrder r = screenOrder d
       \<and> AgentDecision.layout r = AgentDecision.layout d
       \<and> createBranch r = (if branching then Some True else createBranch d)
       \<and> regenerateSpecs r = (if misplaced then newComponents d else regenerateSpecs d)
       \<and> newComponents r = (if misplaced then Some [] else newComponents d)
       \<and> (\<not> misplaced \<and> \<not> branching \<longrightarrow> r = d)"
proof -
  have r: "normalizeDecision lc d hasExisting userPrompt
             = forceBranch lc hasExisting userPrompt (fixMisplacedSpecs d)"
    using assms by (rule normalizeDecision_explicit)
  have same: "\<not> (absentOrEmpty (regenerateSpecs d) \<and> \<not> absentOrEmpty (newComponents d))
      \<and> \<not> (hasBranchingIntent lc userPrompt (AgentDecision.rationale d) \<and> createBranch d \<noteq> Some True)
      \<longrightarrow> forceBranch lc hasExisting userPrompt (fixMisplacedSpecs d) = d"
    using assms(1) by (auto simp: forceBranch_def fixMisplacedSpecs_def)
  show ?thesis
    unfolding Let_def r
    using assms(1,2) same
    by (simp add: forceBranch_fields forceBranch_createBranch fixMisplacedSpecs_fields
        fixMisplacedSpecs_specs)
qed

text \<open>
  The claim as written fails: the rationale says "start from scratch", the prompt also
  says "keep the original", and the decision comes back with the branch flag set.
\<close>

theorem explicit_regeneration_passthrough_counterexample:
  "map snd (components exSession) \<noteq> []
   \<and> action exScratch = REGENERATE_SCREEN
   \<and> isExplicitRegen asciiLowerCase (AgentDecision.rationale exScratch)
   \<and> createBranch exScratch = None
   \<and> createBranch (normalizeDecision asciiLowerCase exScratch True ''Start from scratch but keep the original'')
       = Some True
   \<and> normalizeDecision asciiLowerCase exScratch True ''Start from scratch but keep the original'' \<noteq> exScratch"
proof -
  have b: "createBranch (normalizeDecision asciiLowerCase exScratch True ''Start from scratch but keep the original'')
       = Some True"
    by code_simp
  have c: "createBranch exScratch = None"
    by (simp add: exScratch_def)
  from b c have "normalizeDecision asciiLowerCase exScratch True ''Start from scratch but keep the original'' \<noteq> exScratch"
    by auto
  moreover have "isExplicitRegen asciiLowerCase (AgentDecision.rationale exScratch)"
    by code_simp
  moreover have "map snd (components exSession) \<noteq> []" "action exScratch = REGENERATE_SCREEN"
    by (simp_all add: exSession_def exScratch_def)
  ultimately show ?thesis
    using b c by simp
qed

theorem explicit_regeneration_passthrough_witness:
  "normalizeDecision asciiLowerCase exScratch True ''Start from scratch'' = exScratch
   \<and> action (normalizeDecision asciiLowerCase exScratch True ''Start from scratch'') = REGENERATE_SCREEN"
proof -
  have a: "action exScratch = REGENERATE_SCREEN"
    by (simp add: exScratch_def)
  have e: "isExplicitRegen asciiLowerCase (AgentDecision.rationale exScratch)"
    by code_simp
  have m: "\<not> (absentOrEmpty (regenerateSpecs exScratch) \<and> \<not> absentOrEmpty (newComponents exScratch))"
    by (simp add: exScratch_def absentOrEmpty_def)
  have b: "\<not> hasBranchingIntent asciiLowerCase ''Start from scratch'' (AgentDecision.rationale exScratch)"
    by code_simp
  show ?thesis
    using explicit_regeneration_passthrough [of True exScratch asciiLowerCase "''Start from scratch''", OF TrueI a e] m b a
    by (simp add: Let_def)
qed

section \<open>The regeneration guard\<close>

text \<open>
  For a session with units, a regeneration whose lower-cased rationale contains no
  explicit-intent phrase is replaced by an update decision. Its new-components list is the
  regeneration specs as they stand after the misplaced-field block: the original
  regeneration specs when there are any, otherwise the original new-components list. It
  carries no regeneration specs. Its rationale is the original between the \<open>[PROTECTED]\<close>
  prefix and the fixed suffix. Its branch flag is the original flag, or true when the branch
  block forced it. Its updates are the original updates (an empty list when absent) and its
  layout is the original layout.
\<close>

lemma protected_decision_fields:
  fixes d :: AgentDecision
  assumes "hasExisting" and "action d = REGENERATE_SCREEN"
    and "\<not> isExplicitRegen lc (AgentDecision.rationale d)"
  shows "let r = normalizeDecision lc d hasExisting userPrompt
         in action r = UPDATE_COMPONENTS
       \<and> newComponents r =
           Some (if absentOrEmpty (regenerateSpecs d) then orEmpty (newComponents d)
                 else orEmpty (regenerateSpecs d))
       \<and> regenerateSpecs r = None
       \<and> AgentDecision.rationale r = protectedRationale (AgentDecision.rationale d)
       \<and> createBranch r =
           (if hasBranchingIntent lc userPrompt (AgentDecision.rationale d) \<and> createBranch d \<noteq> Some True
            then Some True else createBranch d)
       \<and> updates r = Some (orEmpty (updates d))
       \<and> AgentDecision.layout r = AgentDecision.layout d"
proof -
  have r: "normalizeDecision lc d hasExisting userPrompt
             = protectRegeneration (forceBranch lc hasExisting userPrompt (fixMisplacedSpecs d))"
    using assms by (rule normalizeDecision_protected)
  have specs: "orEmpty (regenerateSpecs (fixMisplacedSpecs d)) =
      (if absentOrEmpty (regenerateSpecs d) then orEmpty (newComponents d)
       else orEmpty (regenerateSpecs d))"
    using assms(2)
    by (auto simp: fixMisplacedSpecs_specs absentOrEmpty_def orEmpty_def split: option.splits)
  show ?thesis
    unfolding Let_def r
    using assms(1) specs
    by (simp add: protectRegeneration_def Let_def forceBranch_fields forceBranch_createBranch
        fixMisplacedSpecs_fields)
qed

text \<open>
  The order the guard writes: the decision's own screen-order field, then the names of
  the moved specs that are not already in it. The composition of the session is not an
  input of \<open>normalizeDecision\<close>.
\<close>

lemma protected_decision_order:
  fixes d :: AgentDecision
  assumes "hasExisting" and "action d = REGENERATE_SCREEN"
    and "\<not> isExplicitRegen lc (AgentDecision.rationale d)"
  shows "orEmpty (screenOrder (normalizeDecision lc d hasExisting userPrompt))
         = orEmpty (screenOrder d)
           @ filter (\<lambda>n. n \<notin> set (orEmpty (screenOrder d)))
               (map NewComponentSpec.name
                  (orEmpty (newComponents (normalizeDecision lc d hasExisting userPrompt))))"
  using assms
  by (simp add: normalizeDecision_protected protectRegeneration_def Let_def forceBranch_fields
      fixMisplacedSpecs_fields orEmpty_def)

text \<open>
  C1. The guard is to return an update decision whose screen order has the new names
  after the existing composition order. The session below holds Header and Footer, composed
  in that order; the decision is a regeneration with the rationale "Let's refresh the
  page", the one spec Hero and no screen order. The decision that comes back is an update
  with the spec as its new-components list, no regeneration specs, the protected rationale
  and the branch flag of the original; its screen order is \<open>[Hero]\<close>, not
  \<open>[Header, Footer, Hero]\<close>. The agent then composes the screen from that order: the call
  succeeds, Header and Footer are still in the unit mapping, and the screen shows Hero
  alone.
\<close>

theorem regeneration_guard_screen_order:
  "map (\<lambda>c. name c) (map snd (components exSession)) = [''Header'', ''Footer'']
   \<and> screenOrderNames exSession = [''Header'', ''Footer'']
   \<and> action exRefresh = REGENERATE_SCREEN
   \<and> regenerateSpecs exRefresh = Some [heroSpec]
   \<and> createBranch exRefresh = None
   \<and> \<not> isExplicitRegen asciiLowerCase (AgentDecision.rationale exRefresh)
   \<and> action (normalizeDecision asciiLowerCase exRefresh True ''Refresh the page'') = UPDATE_COMPONENTS
   \<and> newComponents (normalizeDecision asciiLowerCase exRefresh True ''Refresh the page'') = Some [heroSpec]
   \<and> regenerateSpecs (normalizeDecision asciiLowerCase exRefresh True ''Refresh the page'') = None
   \<and> AgentDecision.rationale (normalizeDecision asciiLowerCase exRefresh True ''Refresh the page'')
       = ''[PROTECTED] Let'' @ [CHR 0x27]
           @ ''s refresh the page. Adding new components while preserving existing ones.''
   \<and> createBranch (normalizeDecision asciiLowerCase exRefresh True ''Refresh the page'') = None
   \<and> screenOrder (normalizeDecision asciiLowerCase exRefresh True ''Refresh the page'') = Some [''Hero'']
   \<and> success (snd (runAgent asciiLowerCase exStore ''Refresh the page'' (Some ''s1'') envRefresh))
   \<and> map_option (\<lambda>s. map fst (components s))
         (fst (runAgent asciiLowerCase exStore ''Refresh the page'' (Some ''s1'') envRefresh) ''s1'')
       = Some [idHeader, idFooter, idHero]
   \<and> map_option (\<lambda>s. map_option componentIds (screen s))
         (fst (runAgent asciiLowerCase exStore ''Refresh the page'' (Some ''s1'') envRefresh) ''s1'')
       = Some (Some [idHero])"
proof -
  have "map (\<lambda>c. name c) (map snd (components exSession)) = [''Header'', ''Footer'']"
    by (simp add: exSession_def exHeader_def exFooter_def)
  moreover have "screenOrderNames exSession = [''Header'', ''Footer'']"
    by code_simp
  moreover have "action exRefresh = REGENERATE_SCREEN" "regenerateSpecs exRefresh = Some [heroSpec]"
    "createBranch exRefresh = None"
    by (simp_all add: exRefresh_def)
  moreover have "\<not> isExplicitRegen asciiLowerCase (AgentDecision.rationale exRefresh)"
    by code_simp
  moreover have "action (normalizeDecision asciiLowerCase exRefresh True ''Refresh the page'') = UPDATE_COMPONENTS"
    by code_simp
  moreover have "newComponents (normalizeDecision asciiLowerCase exRefresh True ''Refresh the page'') = Some [heroSpec]"
    by code_simp
  moreover have "regenerateSpecs (normalizeDecision asciiLowerCase exRefresh True ''Refresh the page'') = None"
    by code_simp
  moreover have "AgentDecision.rationale (normalizeDecision asciiLowerCase exRefresh True ''Refresh the page'')
       = ''[PROTECTED] Let'' @ [CHR 0x27]
           @ ''s refresh the page. Adding new components while preserving existing ones.''"
    by code_simp
  moreover have "createBranch (normalizeDecision asciiLowerCase exRefresh True ''Refresh the page'') = None"
    by code_simp
  moreover have "screenOrder (normalizeDecision asciiLowerCase exRefresh True ''Refresh the page'') = Some [''Hero'']"
    by code_simp
  moreover have "success (snd (runAgent asciiLowerCase exStore ''Refresh the page'' (Some ''s1'') envRefresh))"
    by code_simp
  moreover have "map_option (\<lambda>s. map fst (components s))
         (fst (runAgent asciiLowerCase exStore ''Refresh the page'' (Some ''s1'') envRefresh) ''s1'')
       = Some [idHeader, idFooter, idHero]"
    by code_simp
  moreover have "map_option (\<lambda>s. map_option componentIds (screen s))
         (fst (runAgent asciiLowerCase exStore ''Refresh the page'' (Some ''s1'') envRefresh) ''s1'')
       = Some (Some [idHero])"
    by code_simp
  ultimately show ?thesis
    by simp
qed

lemma find_filter:
  "find P xs = (case filter P xs of [] \<Rightarrow> None | x # rest \<Rightarrow> Some x)"
  by (induction xs) auto

lemma resolveComponentId_name:
  assumes "\<not> looksLikeUuid reference" and "st sessionId = Some s"
  shows "resolveComponentId lc st sessionId reference =
         map_option Component.id
           (find (\<lambda>c. includesStr (lc (name c)) (lc reference))
              (map snd (components s)))"
  using assms
  by (simp add: resolveComponentId_def findComponentByName_def getSession_def Let_def find_filter
      split: list.splits)

section \<open>Reference resolution\<close>

text \<open>
  The unit mapping keeps insertion order: writing under a new identifier puts the unit
  last, writing under an existing one leaves the order of identifiers as it was.
\<close>

lemma map_set_order:
  "map fst (AList.update k v al)
     = (if k \<in> set (map fst al) then map fst al else map fst al @ [k])"
  by (rule update_keys)

text \<open>
  C7. A reference that matches the identifier pattern is returned as it is, whether or not
  a unit has that identifier. Any other reference resolves to the identifier of the first
  unit, in the order of the unit mapping, whose lower-cased name contains the lower-cased
  reference; with no such unit, or no such session, the resolution fails. This holds
  whatever the lower-casing function is. With units named Header and Header Section in
  that order, and a lower-casing that is the ASCII one on ASCII text, "header" in any case
  of its letters resolves to the identifier of Header. The resolver is a function of the
  store and the reference and returns no store, so calling it again on the same state
  gives the same result.
\<close>

theorem resolver_determinism:
  "(looksLikeUuid reference \<longrightarrow> resolveComponentId lc st sessionId reference = Some reference)
   \<and> (\<not> looksLikeUuid reference \<and> st sessionId = Some s \<longrightarrow>
        resolveComponentId lc st sessionId reference =
          map_option Component.id
            (find (\<lambda>c. includesStr (lc (name c)) (lc reference))
               (map snd (components s))))
   \<and> (\<not> looksLikeUuid reference \<and> st sessionId = Some s
        \<and> (\<forall>c \<in> set (map snd (components s)).
              \<not> includesStr (lc (name c)) (lc reference)) \<longrightarrow>
        resolveComponentId lc st sessionId reference = None)
   \<and> (\<not> looksLikeUuid reference \<and> st sessionId = None \<longrightarrow>
        resolveComponentId lc st sessionId reference = None)
   \<and> (agreesOnAscii lc \<and> st sessionId = Some s \<and> map snd (components s) = [c1, c2]
        \<and> name c1 = ''Header'' \<and> name c2 = ''Header Section''
        \<and> asciiLowerCase reference = ''header'' \<longrightarrow>
        resolveComponentId lc st sessionId reference = Some (Component.id c1))"
proof (intro conjI impI)
  assume "looksLikeUuid reference"
  then show "resolveComponentId lc st sessionId reference = Some reference"
    by (simp add: resolveComponentId_def)
next
  assume "\<not> looksLikeUuid reference \<and> st sessionId = Some s"
  then show "resolveComponentId lc st sessionId reference =
          map_option Component.id
            (find (\<lambda>c. includesStr (lc (name c)) (lc reference))
               (map snd (components s)))"
    by (simp add: resolveComponentId_name)
next
  assume a: "\<not> looksLikeUuid reference \<and> st sessionId = Some s
        \<and> (\<forall>c \<in> set (map snd (components s)).
              \<not> includesStr (lc (name c)) (lc reference))"
  then have "find (\<lambda>c. includesStr (lc (name c)) (lc reference))
               (map snd (components s)) = None"
    by (simp add: find_None_iff)
  with a show "resolveComponentId lc st sessionId reference = None"
    by (simp add: resolveComponentId_name)
next
  assume "\<not> looksLikeUuid reference \<and> st sessionId = None"
  then show "resolveComponentId lc st sessionId reference = None"
    by (simp add: resolveComponentId_def findComponentByName_def getSession_def)
next
  assume a: "agreesOnAscii lc \<and> st sessionId = Some s \<and> map snd (components s) = [c1, c2]
        \<and> name c1 = ''Header'' \<and> name c2 = ''Header Section''
        \<and> asciiLowerCase reference = ''header''"
  then have "length reference = 6"
    using length_asciiLowerCase [of reference] by simp
  then have n: "\<not> looksLikeUuid reference"
    by (simp add: looksLikeUuid_def)
  have "isAscii ''header''"
    by code_simp
  with a have "isAscii reference"
    using asciiLowerCase_ascii [of reference] by simp
  with a have r: "lc reference = ''header''"
    by (simp add: agreesOnAscii_def)
  have "isAscii ''Header''" "asciiLowerCase ''Header'' = ''header''"
    by code_simp+
  with a have h: "lc ''Header'' = ''header''"
    by (simp add: agreesOnAscii_def)
  have "includesStr ''header'' ''header''"
    by (simp add: includesStr_def)
  with a n r h show "resolveComponentId lc st sessionId reference = Some (Component.id c1)"
    by (simp add: resolveComponentId_name)
qed

lemma twoHeaders_session:
  "twoHeaders ''s0'' =
     Some (emptySession\<lparr>components := [(idHeader, exHeader), (idHeaderSection, exHeaderSection)],
                         lastActivityAt := 2\<rparr>)"
  by (simp add: Let_def twoHeaders_def createComponent_def emptyStore_def emptySession_def callHeader_def
      callHeaderSection_def generateComponentHtml_def upsertComponent_def orElse_def idHeader_def
      idHeaderSection_def exHeader_def exHeaderSection_def)

text \<open>
  Header and Header Section are created in that order in an empty session; "HEADER" and
  "heAder" resolve to Header, an identifier no unit has is returned as it is, "sidebar" is
  not found, and nothing is found in a session that does not exist.
\<close>

theorem resolver_determinism_witness:
  "resolveComponentId asciiLowerCase twoHeaders ''s0'' ''HEADER'' = Some idHeader
   \<and> resolveComponentId asciiLowerCase twoHeaders ''s0'' ''heAder'' = Some idHeader
   \<and> resolveComponentId asciiLowerCase twoHeaders ''s0'' idFooter = Some idFooter
   \<and> resolveComponentId asciiLowerCase twoHeaders ''s0'' ''sidebar'' = None
   \<and> resolveComponentId asciiLowerCase twoHeaders ''s7'' ''header'' = None"
proof -
  let ?s = "emptySession\<lparr>components := [(idHeader, exHeader), (idHeaderSection, exHeaderSection)],
                         lastActivityAt := 2\<rparr>"
  have s: "twoHeaders ''s0'' = Some ?s"
    by (rule twoHeaders_session)
  have v: "map snd (components ?s) = [exHeader, exHeaderSection]"
    by simp
  have n: "name exHeader = ''Header''" "name exHeaderSection = ''Header Section''"
    "Component.id exHeader = idHeader"
    by (simp_all add: exHeader_def exHeaderSection_def)
  have l: "asciiLowerCase ''HEADER'' = ''header''" "asciiLowerCase ''heAder'' = ''header''"
    by code_simp+
  have u: "looksLikeUuid idFooter" "\<not> looksLikeUuid ''sidebar''" "\<not> looksLikeUuid ''header''"
    by code_simp+
  have z: "\<forall>c \<in> set (map snd (components ?s)).
             \<not> includesStr (asciiLowerCase (name c)) (asciiLowerCase ''sidebar'')"
    unfolding v by (simp add: n) code_simp
  have m: "twoHeaders ''s7'' = None"
    by (simp add: twoHeaders_def createComponent_def emptyStore_def emptySession_def callHeader_def
        callHeaderSection_def generateComponentHtml_def upsertComponent_def Let_def)
  have g: "agreesOnAscii asciiLowerCase"
    by (simp add: agreesOnAscii_def)
  show ?thesis
    using resolver_determinism [of "''HEADER''" asciiLowerCase twoHeaders "''s0''" ?s exHeader exHeaderSection]
      resolver_determinism [of "''heAder''" asciiLowerCase twoHeaders "''s0''" ?s exHeader exHeaderSection]
      resolver_determinism [of idFooter asciiLowerCase twoHeaders "''s0''" ?s exHeader exHeaderSection]
      resolver_determinism [of "''sidebar''" asciiLowerCase twoHeaders "''s0''" ?s exHeader exHeaderSection]
      resolver_determinism [of "''header''" asciiLowerCase twoHeaders "''s7''" ?s exHeader exHeaderSection]
      s v n l u z m g
    by simp
qed

section \<open>The composer\<close>

text \<open>
  C3, as the code has it. For a session in the store, \<open>composeScreen\<close> fails with a
  component-not-found error naming the first missing identifier, and returns the store
  unchanged, whenever an entry of the ordered list has no unit in the session's mapping.
  Otherwise it replaces the composition with exactly the given list, layout (\<open>stack\<close>
  when none is given) and role bindings, and refreshes the activity timestamp. The role
  bindings are stored as given; they are not looked up.
\<close>

theorem composer_validation:
  assumes "st sessionId = Some s"
  shows "((\<exists>i \<in> set ids. map_of (components s) i = None) \<longrightarrow>
            (\<exists>missing \<in> set ids.
               map_of (components s) missing = None
               \<and> composeScreen st sessionId ids layoutArg config now
                   = (st, Inl (''Component '' @ missing @ '' not found''))))
       \<and> ((\<forall>i \<in> set ids. map_of (components s) i \<noteq> None) \<longrightarrow>
            composeScreen st sessionId ids layoutArg config now
              = (let sc = \<lparr>componentIds = ids,
                            layout = (case layoutArg of None \<Rightarrow> Stack | Some l \<Rightarrow> l),
                            layoutConfig = config\<rparr>
                 in (st(sessionId \<mapsto> s\<lparr>screen := Some sc, lastActivityAt := now\<rparr>), Inr sc)))"
proof (intro conjI impI)
  assume "\<exists>i \<in> set ids. map_of (components s) i = None"
  then obtain missing where m: "find (\<lambda>i. map_of (components s) i = None) ids = Some missing"
    by (cases "find (\<lambda>i. map_of (components s) i = None) ids") (auto simp: find_None_iff)
  then have "missing \<in> set ids" "map_of (components s) missing = None"
    by (auto simp: find_Some_iff)
  moreover have "composeScreen st sessionId ids layoutArg config now
                   = (st, Inl (''Component '' @ missing @ '' not found''))"
    using assms m by (simp add: composeScreen_def getSession_def)
  ultimately show "\<exists>missing \<in> set ids.
               map_of (components s) missing = None
               \<and> composeScreen st sessionId ids layoutArg config now
                   = (st, Inl (''Component '' @ missing @ '' not found''))"
    by blast
next
  assume "\<forall>i \<in> set ids. map_of (components s) i \<noteq> None"
  then have "find (\<lambda>i. map_of (components s) i = None) ids = None"
    by (simp add: find_None_iff)
  then show "composeScreen st sessionId ids layoutArg config now
              = (let sc = \<lparr>componentIds = ids,
                            layout = (case layoutArg of None \<Rightarrow> Stack | Some l \<Rightarrow> l),
                            layoutConfig = config\<rparr>
                 in (st(sessionId \<mapsto> s\<lparr>screen := Some sc, lastActivityAt := now\<rparr>), Inr sc))"
    using assms by (simp add: composeScreen_def getSession_def updateScreen_def Let_def)
qed

text \<open>
  The claim as written fails: a header binding that names no unit does not make the call
  fail, and the composition of the session is replaced.
\<close>

theorem composer_validation_counterexample:
  "map_of (components exSession) ''ghost'' = None
   \<and> headerComponentId ghostConfig = Some ''ghost''
   \<and> snd (composeScreen exStore ''s1'' [idFooter] (Some Stack) (Some ghostConfig) 9)
       = Inr \<lparr>componentIds = [idFooter], layout = Stack, layoutConfig = Some ghostConfig\<rparr>
   \<and> map_option screen (fst (composeScreen exStore ''s1'' [idFooter] (Some Stack) (Some ghostConfig) 9) ''s1'')
       = Some (Some \<lparr>componentIds = [idFooter], layout = Stack, layoutConfig = Some ghostConfig\<rparr>)
   \<and> screen exSession
       = Some \<lparr>componentIds = [idHeader, idFooter], layout = SidebarLeft, layoutConfig = None\<rparr>"
  by (simp add: composeScreen_def getSession_def updateScreen_def exStore_def exSession_def
      ghostConfig_def idHeader_def idFooter_def Let_def)

theorem composer_validation_witness:
  "composeScreen exStore ''s1'' [idFooter, ''ghost''] (Some Grid2) None 9
     = (exStore, Inl ''Component ghost not found'')
   \<and> composeScreen exStore ''s1'' [idFooter, idHeader] None (Some ghostConfig) 9
     = (exStore(''s1'' \<mapsto> exSession\<lparr>screen := Some \<lparr>componentIds = [idFooter, idHeader], layout = Stack,
                                                     layoutConfig = Some ghostConfig\<rparr>,
                                     lastActivityAt := 9\<rparr>),
        Inr \<lparr>componentIds = [idFooter, idHeader], layout = Stack, layoutConfig = Some ghostConfig\<rparr>)"
proof -
  have s: "exStore ''s1'' = Some exSession"
    by (simp add: exStore_def)
  have m: "map_of (components exSession) ''ghost'' = None"
    "map_of (components exSession) idFooter \<noteq> None"
    "map_of (components exSession) idHeader \<noteq> None"
    by (simp_all add: exSession_def idHeader_def idFooter_def)
  show ?thesis
    using composer_validation [where st = exStore and sessionId = "''s1''" and s = exSession
        and ids = "[idFooter, ''ghost'']" and layoutArg = "Some Grid2" and config = None and now = 9]
      composer_validation [where st = exStore and sessionId = "''s1''" and s = exSession
        and ids = "[idFooter, idHeader]" and layoutArg = None and config = "Some ghostConfig"
        and now = 9]
      s m
    by (auto simp: Let_def)
qed

section \<open>Batches: what settling does to the session\<close>

lemma generateComponentHtml_cases:
  "generateComponentHtml r =
     (case r of Parsed out \<Rightarrow> Inr (ComponentHtmlOutput.html out, ComponentHtmlOutput.description out)
      | Unavailable msg \<Rightarrow> Inl msg
      | Empty \<Rightarrow> Inl ''No content in LLM response''
      | Rejected msg \<Rightarrow> Inl msg)"
  by (simp add: generateComponentHtml_def split: Reply.splits)

lemma upsertComponent_present:
  "st sid = Some s \<Longrightarrow>
   upsertComponent st sid c now =
     (st(sid \<mapsto> s\<lparr>components := AList.update (Component.id c) c (components s),
                     lastActivityAt := now\<rparr>), True)"
  by (simp add: upsertComponent_def)

lemma createComponent_eq:
  assumes "st sid = Some s"
  shows "createComponent st sid (NewComponentSpec.name spec) (NewComponentSpec.description spec)
           (requirements spec) (styleHints spec) call
         = (st(sid \<mapsto> written s (outcome (AwaitCreate spec) call) (at call)),
            outcome (AwaitCreate spec) call)"
  using assms
  by (cases "reply call")
     (simp_all add: createComponent_def generateComponentHtml_cases outcome_def written_def
        upsertComponent_present createdUnit_def Let_def fun_upd_idem)

lemma updateComponentSettle_eq:
  assumes "st sid = Some s"
  shows "updateComponentSettle st sid existing call
         = (st(sid \<mapsto> written s (outcome (AwaitUpdate existing) call) (at call)),
            outcome (AwaitUpdate existing) call)"
  using assms
  by (cases "reply call")
     (simp_all add: updateComponentSettle_def generateComponentHtml_cases outcome_def written_def
        upsertComponent_present Let_def fun_upd_idem)

lemma settle_eq:
  assumes "st sid = Some s"
  shows "settle st sid p call = (st(sid \<mapsto> written s (outcome p call) (at call)), outcome p call)"
proof (cases p)
  case (AwaitCreate spec)
  then show ?thesis
    using assms by (simp add: settle_def createComponent_eq)
next
  case (AwaitUpdate existing)
  then show ?thesis
    using assms by (simp add: settle_def updateComponentSettle_eq)
next
  case (NotFound cid)
  then show ?thesis
    using assms by (simp add: settle_def outcome_def written_def fun_upd_idem)
qed

lemma afterSettling_Nil: "afterSettling s ps calls [] = s"
  by (simp add: afterSettling_def)

lemma afterSettling_Cons:
  "afterSettling s ps calls (i # rest)
     = afterSettling (written s (outcome (ps ! i) (calls i)) (at (calls i))) ps calls rest"
  by (simp add: afterSettling_def)

lemma settleAll_eq:
  "st sid = Some s \<Longrightarrow>
   settleAll st sid ps calls settledIndices
     = (st(sid \<mapsto> afterSettling s ps calls settledIndices),
        map (\<lambda>i. (i, outcome (ps ! i) (calls i))) settledIndices)"
proof (induction settledIndices arbitrary: st s)
  case Nil
  then show ?case
    by (simp add: afterSettling_Nil fun_upd_idem)
next
  case (Cons i rest)
  let ?s1 = "written s (outcome (ps ! i) (calls i)) (at (calls i))"
  have "settleAll (st(sid \<mapsto> ?s1)) sid ps calls rest
          = ((st(sid \<mapsto> ?s1))(sid \<mapsto> afterSettling ?s1 ps calls rest),
             map (\<lambda>i. (i, outcome (ps ! i) (calls i))) rest)"
    by (rule Cons.IH) simp
  then show ?case
    using Cons.prems by (auto simp: settle_eq afterSettling_Cons fun_eq_iff)
qed

text \<open>Every list of indices denotes a complete settle order.\<close>

lemma set_settleOrder: "set (settleOrder n order) = {0..<n}"
  by (auto simp: settleOrder_def)

lemma distinct_settleOrder: "distinct (settleOrder n order)"
  by (auto simp: settleOrder_def)

lemma settleOrder_permutation:
  "distinct order \<Longrightarrow> set order = {0..<n} \<Longrightarrow> settleOrder n order = order"
  by (simp add: settleOrder_def distinct_remdups_id)

lemma map_of_tabulate:
  "map_of (map (\<lambda>i. (i, f i)) xs) i = (if i \<in> set xs then Some (f i) else None)"
  by (induction xs) auto

lemma awaitAll_eq:
  assumes "st sid = Some s"
  shows "awaitAll st sid ps calls order
         = (st(sid \<mapsto> afterSettling s ps calls (settleOrder (length ps) order)),
            map (\<lambda>i. outcome (ps ! i) (calls i)) [0..<length ps])"
  using assms
  by (simp add: awaitAll_def settleAll_eq map_of_tabulate set_settleOrder)

lemma written_fields:
  "SessionState.id (written s r now) = SessionState.id s"
  "messages (written s r now) = messages s"
  "screen (written s r now) = screen s"
  "decisionHistory (written s r now) = decisionHistory s"
  "createdAt (written s r now) = createdAt s"
  by (simp_all add: written_def split: sum.splits)

lemma keys_update: "fst ` set (AList.update k v al) = insert k (fst ` set al)"
proof -
  have "set (map fst (AList.update k v al)) = insert k (set (map fst al))"
    by (simp only: update_keys) auto
  then show ?thesis by simp
qed

lemma written_keys:
  "set (map fst (components (written s r now)))
     = set (map fst (components s)) \<union> (case r of Inl err \<Rightarrow> {} | Inr c \<Rightarrow> {Component.id c})"
  by (cases r) (simp_all add: written_def keys_update)

lemma afterSettling_fields:
  "SessionState.id (afterSettling s ps calls settledIndices) = SessionState.id s"
  "messages (afterSettling s ps calls settledIndices) = messages s"
  "screen (afterSettling s ps calls settledIndices) = screen s"
  "decisionHistory (afterSettling s ps calls settledIndices) = decisionHistory s"
  "createdAt (afterSettling s ps calls settledIndices) = createdAt s"
  by (induction settledIndices arbitrary: s; simp add: afterSettling_Nil afterSettling_Cons written_fields)+

lemma afterSettling_keys:
  "set (map fst (components (afterSettling s ps calls settledIndices)))
     = set (map fst (components s))
       \<union> {Component.id c |i c. i \<in> set settledIndices \<and> outcome (ps ! i) (calls i) = Inr c}"
proof (induction settledIndices arbitrary: s)
  case Nil
  then show ?case by (simp add: afterSettling_Nil)
next
  case (Cons i rest)
  show ?case
    unfolding afterSettling_Cons Cons.IH written_keys
    by (cases "outcome (ps ! i) (calls i)") auto
qed

lemma afterSettling_all_failed:
  "\<forall>i \<in> set settledIndices. \<forall>c. outcome (ps ! i) (calls i) \<noteq> Inr c \<Longrightarrow>
   afterSettling s ps calls settledIndices = s"
proof (induction settledIndices arbitrary: s)
  case Nil
  then show ?case by (simp add: afterSettling_Nil)
next
  case (Cons i rest)
  then have "written s (outcome (ps ! i) (calls i)) (at (calls i)) = s"
    by (cases "outcome (ps ! i) (calls i)") (simp_all add: written_def)
  with Cons show ?case
    by (simp add: afterSettling_Cons)
qed

lemma outcome_create:
  "outcome (AwaitCreate spec) call = Inr c \<longleftrightarrow>
     (\<exists>out. reply call = Parsed out \<and> c = createdUnit spec call out)"
  by (cases "reply call") (auto simp: outcome_def)

lemma outcome_succeeds:
  "generationSucceeds call \<longleftrightarrow> (\<exists>c. outcome (AwaitCreate spec) call = Inr c)"
  by (cases "reply call") (auto simp: outcome_def generationSucceeds_def)

lemma outcome_update_succeeds:
  "generationSucceeds call \<longleftrightarrow> (\<exists>c. outcome (AwaitUpdate existing) call = Inr c)"
  by (cases "reply call") (auto simp: outcome_def generationSucceeds_def)

lemma outcome_create_id:
  "outcome (AwaitCreate spec) call = Inr c \<Longrightarrow>
     Component.id c = uuid call \<and> name c = NewComponentSpec.name spec"
  by (auto simp: outcome_create createdUnit_def)

section \<open>Failed generations\<close>

text \<open>
  C8. A creation whose generation call does not succeed (the request throws, the response
  is empty, or the content fails parsing or the schema) returns an error and the store it
  was given: no unit is added. An update whose generation call does not succeed returns an
  error and the store it was given: the unit keeps its body, description and timestamp.
  In a batch of started calls on an existing session, whatever the order in which they
  settle, there is one result per call, the result of each call is the one it has when it
  runs alone on the initial store, and the unit of every successful call is in the unit
  mapping at the end: the failure of one call does not stop another.
\<close>

theorem failed_generation_leaves_units:
  "(\<not> generationSucceeds call \<longrightarrow>
      fst (createComponent st sid nm descr reqs hints call) = st
      \<and> (\<exists>err. snd (createComponent st sid nm descr reqs hints call) = Inl err))
   \<and> (\<not> generationSucceeds call \<longrightarrow>
      fst (updateComponent st sid cid changeRequest hints call) = st
      \<and> (\<exists>err. snd (updateComponent st sid cid changeRequest hints call) = Inl err))
   \<and> (st sid = Some s \<longrightarrow>
      length (snd (awaitAll st sid ps calls order)) = length ps
      \<and> (\<forall>i < length ps.
            snd (awaitAll st sid ps calls order) ! i = snd (settle st sid (ps ! i) (calls i))
            \<and> (\<forall>c. snd (awaitAll st sid ps calls order) ! i = Inr c \<longrightarrow>
                  (\<exists>s'. fst (awaitAll st sid ps calls order) sid = Some s'
                        \<and> map_of (components s') (Component.id c) \<noteq> None))))"
proof (intro conjI impI allI)
  assume f: "\<not> generationSucceeds call"
  then obtain err where e: "generateComponentHtml (reply call) = Inl err"
    by (cases "reply call") (auto simp: generationSucceeds_def generateComponentHtml_cases)
  then show "fst (createComponent st sid nm descr reqs hints call) = st"
    and "\<exists>err. snd (createComponent st sid nm descr reqs hints call) = Inl err"
    by (simp_all add: createComponent_def)
  from e show "fst (updateComponent st sid cid changeRequest hints call) = st"
    and "\<exists>err. snd (updateComponent st sid cid changeRequest hints call) = Inl err"
    by (simp_all add: updateComponent_def updateComponentSettle_def split: option.splits)
next
  assume s: "st sid = Some s"
  then show "length (snd (awaitAll st sid ps calls order)) = length ps"
    by (simp add: awaitAll_eq)
  fix i assume i: "i < length ps"
  from s i show r: "snd (awaitAll st sid ps calls order) ! i = snd (settle st sid (ps ! i) (calls i))"
    by (simp add: awaitAll_eq settle_eq)
  fix c assume "snd (awaitAll st sid ps calls order) ! i = Inr c"
  with s i have o: "outcome (ps ! i) (calls i) = Inr c"
    by (simp add: awaitAll_eq)
  let ?s' = "afterSettling s ps calls (settleOrder (length ps) order)"
  from i o have "Component.id c \<in> set (map fst (components ?s'))"
    unfolding afterSettling_keys set_settleOrder by auto
  then have "map_of (components ?s') (Component.id c) \<noteq> None"
    by (simp add: map_of_eq_None_iff)
  with s show "\<exists>s'. fst (awaitAll st sid ps calls order) sid = Some s'
                        \<and> map_of (components s') (Component.id c) \<noteq> None"
    by (simp add: awaitAll_eq)
qed

text \<open>
  A failing creation, a failing update, and the batch of five creations in which the
  second and fourth calls fail and the calls settle in reverse order: the third still
  returns its unit and the unit is stored.
\<close>

theorem failed_generation_leaves_units_witness:
  "fst (createComponent emptyStore ''s0'' ''Footer'' ''Links'' ''Plain'' None callFailing) = emptyStore
   \<and> fst (updateComponent exStore ''s1'' idHeader ''dark mode'' None callFailing) = exStore
   \<and> snd (awaitAll emptyStore ''s0'' (map AwaitCreate fiveSpecs) fiveCalls [4, 3, 2, 1, 0]) ! 2
       = Inr \<lparr>Component.id = ''unit-xxx'', name = ''Features'', description = ''Part of the page'',
               html = ''<div></div>'', lastUpdatedAt = 22\<rparr>
   \<and> (\<exists>s'. fst (awaitAll emptyStore ''s0'' (map AwaitCreate fiveSpecs) fiveCalls [4, 3, 2, 1, 0]) ''s0''
               = Some s'
             \<and> map_of (components s') ''unit-xxx'' \<noteq> None)"
proof -
  have f: "\<not> generationSucceeds callFailing"
    by (simp add: generationSucceeds_def callFailing_def)
  have s: "emptyStore ''s0'' = Some emptySession"
    by (simp add: emptyStore_def)
  have n: "2 < length (map AwaitCreate fiveSpecs)"
    by (simp add: fiveSpecs_def)
  have r: "snd (settle emptyStore ''s0'' (map AwaitCreate fiveSpecs ! 2) (fiveCalls 2))
             = Inr \<lparr>Component.id = ''unit-xxx'', name = ''Features'', description = ''Part of the page'',
                     html = ''<div></div>'', lastUpdatedAt = 22\<rparr>"
    by code_simp
  note batch = failed_generation_leaves_units [where call = callFailing and st = emptyStore
        and sid = "''s0''" and nm = "''Footer''" and descr = "''Links''" and reqs = "''Plain''"
        and hints = None and s = emptySession and ps = "map AwaitCreate fiveSpecs"
        and calls = fiveCalls and order = "[4, 3, 2, 1, 0]"]
  note single = failed_generation_leaves_units [where call = callFailing and st = exStore
        and sid = "''s1''" and cid = idHeader and changeRequest = "''dark mode''" and hints = None]
  have c: "fst (createComponent emptyStore ''s0'' ''Footer'' ''Links'' ''Plain'' None callFailing)
             = emptyStore"
    using batch f by blast
  have u: "fst (updateComponent exStore ''s1'' idHeader ''dark mode'' None callFailing) = exStore"
    using single f by blast
  have b: "snd (awaitAll emptyStore ''s0'' (map AwaitCreate fiveSpecs) fiveCalls [4, 3, 2, 1, 0]) ! 2
             = snd (settle emptyStore ''s0'' (map AwaitCreate fiveSpecs ! 2) (fiveCalls 2))"
    using batch s n by blast
  have "\<exists>s'. fst (awaitAll emptyStore ''s0'' (map AwaitCreate fiveSpecs) fiveCalls [4, 3, 2, 1, 0]) ''s0''
               = Some s'
             \<and> map_of (components s')
                  (Component.id \<lparr>Component.id = ''unit-xxx'', name = ''Features'',
                                  description = ''Part of the page'', html = ''<div></div>'',
                                  lastUpdatedAt = 22\<rparr>) \<noteq> None"
    using batch s n b r by metis
  with c u b r show ?thesis
    by simp
qed

section \<open>Regeneration batches\<close>

lemma composeScreen_present:
  assumes "st sid = Some s" and "\<forall>i \<in> set ids. map_of (components s) i \<noteq> None"
  shows "composeScreen st sid ids layoutArg config now
         = (st(sid \<mapsto> s\<lparr>screen := Some \<lparr>componentIds = ids,
                                          layout = (case layoutArg of None \<Rightarrow> Stack | Some l \<Rightarrow> l),
                                          layoutConfig = config\<rparr>,
                         lastActivityAt := now\<rparr>),
            Inr \<lparr>componentIds = ids,
                 layout = (case layoutArg of None \<Rightarrow> Stack | Some l \<Rightarrow> l),
                 layoutConfig = config\<rparr>)"
proof -
  have "find (\<lambda>i. map_of (components s) i = None) ids = None"
    using assms(2) by (simp add: find_None_iff)
  then show ?thesis
    using assms(1) by (simp add: composeScreen_def getSession_def updateScreen_def Let_def)
qed

lemma succeeded_simps:
  "succeeded [] = []"
  "succeeded (Inl err # rs) = succeeded rs"
  "succeeded (Inr c # rs) = c # succeeded rs"
  by (simp_all add: succeeded_def List.map_filter_simps)

lemma succeeded_ids:
  "map Component.id (succeeded (map (\<lambda>i. outcome (AwaitCreate (specs ! i)) (calls i)) xs))
     = map (\<lambda>i. uuid (calls i)) (filter (\<lambda>i. generationSucceeds (calls i)) xs)"
  by (induction xs)
     (auto simp: succeeded_simps outcome_def generationSucceeds_def createdUnit_def
        split: Reply.splits)

lemma succeeded_names:
  "map name (succeeded (map (\<lambda>i. outcome (AwaitCreate (specs ! i)) (calls i)) xs))
     = map (\<lambda>i. NewComponentSpec.name (specs ! i)) (filter (\<lambda>i. generationSucceeds (calls i)) xs)"
  by (induction xs)
     (auto simp: succeeded_simps outcome_def generationSucceeds_def createdUnit_def
        split: Reply.splits)

lemma succeeded_set:
  "c \<in> set (succeeded rs) \<longleftrightarrow> Inr c \<in> set rs"
proof (induction rs)
  case Nil
  then show ?case by (simp add: succeeded_simps)
next
  case (Cons r rs)
  then show ?case by (cases r) (auto simp: succeeded_simps)
qed

lemma create_outcomes:
  "map (\<lambda>i. outcome (map AwaitCreate specs ! i) (calls i)) [0..<length specs]
     = map (\<lambda>i. outcome (AwaitCreate (specs ! i)) (calls i)) [0..<length specs]"
  by simp

lemma executeRegenerate_eq:
  assumes s: "st sid = Some s"
  shows "executeRegenerate lc st sid specs layoutSpec calls order now =
     (let ps = map AwaitCreate specs;
          s1 = afterSettling s ps calls (settleOrder (length specs) order);
          created = succeeded (map (\<lambda>i. outcome (AwaitCreate (specs ! i)) (calls i))
                                 [0..<length specs])
      in if created = [] then (st(sid \<mapsto> s1), [], Some ''Failed to create any components'')
         else
           (let sc = \<lparr>componentIds = map Component.id created,
                        layout = (case layoutSpec of None \<Rightarrow> Stack | Some l \<Rightarrow> type l),
                        layoutConfig =
                          (case layoutSpec of
                             None \<Rightarrow> None
                           | Some l \<Rightarrow>
                               Some \<lparr>sidebarComponentId =
                                       whenGiven (sidebarComponent l)
                                         (resolveComponentIdFromList lc created) None,
                                     headerComponentId =
                                       whenGiven (headerComponent l)
                                         (resolveComponentIdFromList lc created) None,
                                     footerComponentId =
                                       whenGiven (footerComponent l)
                                         (resolveComponentIdFromList lc created) None,
                                     mainComponentIds = None\<rparr>)\<rparr>
            in (st(sid \<mapsto> s1\<lparr>screen := Some sc, lastActivityAt := now\<rparr>), created, None)))"
proof -
  let ?ps = "map AwaitCreate specs"
  let ?s1 = "afterSettling s ?ps calls (settleOrder (length specs) order)"
  let ?rs = "map (\<lambda>i. outcome (AwaitCreate (specs ! i)) (calls i)) [0..<length specs]"
  have a: "awaitAll st sid ?ps calls order = (st(sid \<mapsto> ?s1), ?rs)"
    using s by (simp add: awaitAll_eq)
  have present: "\<forall>k \<in> set (map Component.id (succeeded ?rs)). map_of (components ?s1) k \<noteq> None"
  proof
    fix k assume "k \<in> set (map Component.id (succeeded ?rs))"
    then obtain c where c: "Inr c \<in> set ?rs" "k = Component.id c"
      by (auto simp: succeeded_set)
    then obtain i where "i < length specs" "outcome (AwaitCreate (specs ! i)) (calls i) = Inr c"
      by auto
    then have "k \<in> set (map fst (components ?s1))"
      unfolding afterSettling_keys set_settleOrder using c(2) by auto
    then show "map_of (components ?s1) k \<noteq> None"
      by (simp add: map_of_eq_None_iff)
  qed
  have l: "(case (case layoutSpec of None \<Rightarrow> None | Some l \<Rightarrow> Some (type l)) of None \<Rightarrow> Stack | Some l \<Rightarrow> l)
             = (case layoutSpec of None \<Rightarrow> Stack | Some l \<Rightarrow> type l)"
    by (cases layoutSpec) simp_all
  have sid: "(st(sid \<mapsto> ?s1)) sid = Some ?s1"
    by simp
  note compose = composeScreen_present [where s = ?s1 and st = "st(sid \<mapsto> ?s1)" and sid = sid
      and ids = "map Component.id (succeeded ?rs)", OF sid present]
  show ?thesis
    unfolding executeRegenerate_def a
    by (simp add: Let_def compose split: option.splits)
qed

lemma same_length_Nil: "length xs = length ys \<Longrightarrow> xs = [] \<longleftrightarrow> ys = []"
  by (cases xs; cases ys; simp)

text \<open>
  C4. For a session in the store and a batch of \<open>n\<close> specs, each with its one generation
  call, in whatever order the calls settle: the units returned are those of the specs whose
  call succeeds, in specification order, each under the identifier its call was given and
  the name of its spec. If at least one call succeeds there is no error, the composition
  of the session lists exactly those identifiers in that order under the requested layout
  (\<open>stack\<close> when none is given), and each of them is in the unit mapping. If every call
  fails, the result is the error "Failed to create any components", with no units, and the
  store is as it was given.
\<close>

theorem regeneration_partial_failure:
  assumes "st sid = Some s"
  shows "let ok = filter (\<lambda>i. generationSucceeds (calls i)) [0..<length specs];
             res = executeRegenerate lc st sid specs layoutSpec calls order now
         in map Component.id (fst (snd res)) = map (\<lambda>i. uuid (calls i)) ok
          \<and> map name (fst (snd res)) = map (\<lambda>i. NewComponentSpec.name (specs ! i)) ok
          \<and> (ok \<noteq> [] \<longrightarrow>
                snd (snd res) = None
                \<and> (\<exists>s'. fst res sid = Some s'
                      \<and> map_option componentIds (screen s') = Some (map (\<lambda>i. uuid (calls i)) ok)
                      \<and> map_option layout (screen s')
                          = Some (case layoutSpec of None \<Rightarrow> Stack | Some l \<Rightarrow> type l)
                      \<and> (\<forall>i \<in> set ok. map_of (components s') (uuid (calls i)) \<noteq> None)))
          \<and> (ok = [] \<longrightarrow>
                snd (snd res) = Some ''Failed to create any components''
                \<and> fst (snd res) = [] \<and> fst res = st)"
proof -
  let ?ok = "filter (\<lambda>i. generationSucceeds (calls i)) [0..<length specs]"
  let ?rs = "map (\<lambda>i. outcome (AwaitCreate (specs ! i)) (calls i)) [0..<length specs]"
  let ?s1 = "afterSettling s (map AwaitCreate specs) calls (settleOrder (length specs) order)"
  have ids: "map Component.id (succeeded ?rs) = map (\<lambda>i. uuid (calls i)) ?ok"
    by (rule succeeded_ids)
  have names: "map name (succeeded ?rs) = map (\<lambda>i. NewComponentSpec.name (specs ! i)) ?ok"
    by (rule succeeded_names)
  have "length (succeeded ?rs) = length ?ok"
    using arg_cong [OF ids, of length] by simp
  then have empty: "succeeded ?rs = [] \<longleftrightarrow> ?ok = []"
    by (rule same_length_Nil)
  have keys: "\<forall>i \<in> set ?ok. map_of (components ?s1) (uuid (calls i)) \<noteq> None"
  proof
    fix i assume "i \<in> set ?ok"
    then have i: "i < length specs" "generationSucceeds (calls i)"
      by auto
    then obtain c where c: "outcome (AwaitCreate (specs ! i)) (calls i) = Inr c"
      using outcome_succeeds by blast
    then have "Component.id c = uuid (calls i)"
      by (simp add: outcome_create_id)
    with i c have "uuid (calls i) \<in> set (map fst (components ?s1))"
      unfolding afterSettling_keys set_settleOrder by force
    then show "map_of (components ?s1) (uuid (calls i)) \<noteq> None"
      by (simp add: map_of_eq_None_iff)
  qed
  have failed: "?s1 = s" if e: "?ok = []"
  proof (rule afterSettling_all_failed, intro ballI allI)
    fix i c assume "i \<in> set (settleOrder (length specs) order)"
    then have i: "i < length specs"
      by (simp add: set_settleOrder)
    with e have "\<not> generationSucceeds (calls i)"
      by (simp add: filter_empty_conv)
    then have "\<not> (\<exists>c. outcome (AwaitCreate (specs ! i)) (calls i) = Inr c)"
      using outcome_succeeds [of "calls i" "specs ! i"] by blast
    with i show "outcome (map AwaitCreate specs ! i) (calls i) \<noteq> Inr c"
      by simp
  qed
  let ?sc = "\<lparr>componentIds = map Component.id (succeeded ?rs),
              layout = (case layoutSpec of None \<Rightarrow> Stack | Some l \<Rightarrow> type l),
              layoutConfig =
                (case layoutSpec of
                   None \<Rightarrow> None
                 | Some l \<Rightarrow>
                     Some \<lparr>sidebarComponentId =
                             whenGiven (sidebarComponent l)
                               (resolveComponentIdFromList lc (succeeded ?rs)) None,
                           headerComponentId =
                             whenGiven (headerComponent l)
                               (resolveComponentIdFromList lc (succeeded ?rs)) None,
                           footerComponentId =
                             whenGiven (footerComponent l)
                               (resolveComponentIdFromList lc (succeeded ?rs)) None,
                           mainComponentIds = None\<rparr>)\<rparr>"
  let ?res = "executeRegenerate lc st sid specs layoutSpec calls order now"
  show ?thesis
  proof (cases "?ok = []")
    case True
    then have "succeeded ?rs = []"
      using empty by simp
    then have "?res = (st(sid \<mapsto> ?s1), [], Some ''Failed to create any components'')"
      by (simp add: executeRegenerate_eq [where st = st and sid = sid and s = s, OF assms] Let_def)
    moreover have "st(sid \<mapsto> ?s1) = st"
      using failed [OF True] assms by (simp add: fun_upd_idem)
    ultimately have "?res = (st, [], Some ''Failed to create any components'')"
      by simp
    with True show ?thesis
      by (simp add: Let_def)
  next
    case False
    then have "succeeded ?rs \<noteq> []"
      using empty by simp
    then have r: "?res = (st(sid \<mapsto> ?s1\<lparr>screen := Some ?sc, lastActivityAt := now\<rparr>),
                          succeeded ?rs, None)"
      by (simp add: executeRegenerate_eq [where st = st and sid = sid and s = s, OF assms] Let_def)
    have a: "map Component.id (fst (snd ?res)) = map (\<lambda>i. uuid (calls i)) ?ok"
      "map name (fst (snd ?res)) = map (\<lambda>i. NewComponentSpec.name (specs ! i)) ?ok"
      "snd (snd ?res) = None"
      by (simp_all add: r ids names)
    have "fst ?res sid = Some (?s1\<lparr>screen := Some ?sc, lastActivityAt := now\<rparr>)"
      by (simp add: r)
    moreover have "map_option componentIds (screen (?s1\<lparr>screen := Some ?sc, lastActivityAt := now\<rparr>))
                     = Some (map (\<lambda>i. uuid (calls i)) ?ok)"
      by (simp add: ids)
    moreover have "map_option layout (screen (?s1\<lparr>screen := Some ?sc, lastActivityAt := now\<rparr>))
                     = Some (case layoutSpec of None \<Rightarrow> Stack | Some l \<Rightarrow> type l)"
      by simp
    moreover have "\<forall>i \<in> set ?ok.
        map_of (components (?s1\<lparr>screen := Some ?sc, lastActivityAt := now\<rparr>)) (uuid (calls i)) \<noteq> None"
      using keys by simp
    ultimately have "\<exists>s'. fst ?res sid = Some s'
                      \<and> map_option componentIds (screen s') = Some (map (\<lambda>i. uuid (calls i)) ?ok)
                      \<and> map_option layout (screen s')
                          = Some (case layoutSpec of None \<Rightarrow> Stack | Some l \<Rightarrow> type l)
                      \<and> (\<forall>i \<in> set ?ok. map_of (components s') (uuid (calls i)) \<noteq> None)"
      by (intro exI conjI)
    with a False show ?thesis
      unfolding Let_def by (intro conjI impI) simp_all
  qed
qed

text \<open>
  Five specs with the second and fourth calls failing give the composition Nav, Features,
  Footer; a batch whose calls all fail gives the error.
\<close>

theorem regeneration_partial_failure_witness:
  "map name (fst (snd (executeRegenerate asciiLowerCase emptyStore ''s0'' fiveSpecs None fiveCalls [4, 3, 2, 1, 0] 30)))
     = [''Nav'', ''Features'', ''Footer'']
   \<and> snd (snd (executeRegenerate asciiLowerCase emptyStore ''s0'' fiveSpecs None fiveCalls [4, 3, 2, 1, 0] 30)) = None
   \<and> (\<exists>s'. fst (executeRegenerate asciiLowerCase emptyStore ''s0'' fiveSpecs None fiveCalls [4, 3, 2, 1, 0] 30) ''s0''
               = Some s'
            \<and> map_option componentIds (screen s') = Some [''unit-x'', ''unit-xxx'', ''unit-xxxxx''])
   \<and> snd (snd (executeRegenerate asciiLowerCase exStore ''s1'' fiveSpecs None allFailing [] 30))
       = Some ''Failed to create any components''"
proof -
  have s: "emptyStore ''s0'' = Some emptySession" "exStore ''s1'' = Some exSession"
    by (simp_all add: emptyStore_def exStore_def)
  have ok: "filter (\<lambda>i. generationSucceeds (fiveCalls i)) [0..<length fiveSpecs] = [0, 2, 4]"
    by code_simp
  have none: "filter (\<lambda>i. generationSucceeds (allFailing i)) [0..<length fiveSpecs] = []"
    by code_simp
  have v: "map (\<lambda>i. uuid (fiveCalls i)) [0, 2, 4] = [''unit-x'', ''unit-xxx'', ''unit-xxxxx'']"
    "map (\<lambda>i. NewComponentSpec.name (fiveSpecs ! i)) [0, 2, 4] = [''Nav'', ''Features'', ''Footer'']"
    by code_simp+
  note some = regeneration_partial_failure [where lc = asciiLowerCase and st = emptyStore and sid = "''s0''"
      and s = emptySession and specs = fiveSpecs and layoutSpec = None and calls = fiveCalls
      and order = "[4, 3, 2, 1, 0]" and now = 30, OF s(1), unfolded Let_def ok v]
  note none_ok = regeneration_partial_failure [where lc = asciiLowerCase and st = exStore and sid = "''s1''"
      and s = exSession and specs = fiveSpecs and layoutSpec = None and calls = allFailing
      and order = "[]" and now = 30, OF s(2), unfolded Let_def none]
  have n: "snd (snd (executeRegenerate asciiLowerCase exStore ''s1'' fiveSpecs None allFailing [] 30))
       = Some ''Failed to create any components''"
    by (rule none_ok [THEN conjunct2, THEN conjunct2, THEN conjunct2, THEN mp, OF refl,
          THEN conjunct1])
  have p: "[0::nat, 2, 4] \<noteq> []"
    by simp
  note composed = some [THEN conjunct2, THEN conjunct2, THEN conjunct1, THEN mp, OF p]
  have e: "snd (snd (executeRegenerate asciiLowerCase emptyStore ''s0'' fiveSpecs None fiveCalls
                       [4, 3, 2, 1, 0] 30)) = None"
    by (rule composed [THEN conjunct1])
  have x: "\<exists>s'. fst (executeRegenerate asciiLowerCase emptyStore ''s0'' fiveSpecs None fiveCalls
                           [4, 3, 2, 1, 0] 30) ''s0'' = Some s'
            \<and> map_option componentIds (screen s') = Some [''unit-x'', ''unit-xxx'', ''unit-xxxxx'']"
    using composed [THEN conjunct2] by (elim exE conjE, intro exI conjI)
  from some [THEN conjunct2, THEN conjunct1] e x n show ?thesis
    by (intro conjI)
qed

section \<open>The decision context\<close>

lemma sliceLast_sliceLast:
  assumes "m \<le> n"
  shows "sliceLast m (sliceLast n xs) = sliceLast m xs"
proof -
  have "length xs - (length xs - n) - m + (length xs - n) = length xs - m"
    using assms by arith
  then show ?thesis
    by (simp add: sliceLast_def)
qed

lemma sliceLast_Nil: "0 < n \<Longrightarrow> sliceLast n xs = [] \<longleftrightarrow> xs = []"
proof (cases xs)
  case Nil
  then show ?thesis by (simp add: sliceLast_def)
next
  case (Cons x rest)
  assume "0 < n"
  then have "\<not> Suc (length rest) \<le> Suc (length rest) - n"
    by arith
  with Cons show ?thesis
    by (simp add: sliceLast_def)
qed

lemma length_sliceLast: "length (sliceLast n xs) \<le> n"
  by (simp add: sliceLast_def)

lemma sliceLast_suffix: "suffix (sliceLast n xs) xs"
  by (simp add: sliceLast_def suffix_drop)

lemma sliceLast_map: "sliceLast n (map f xs) = map f (sliceLast n xs)"
  by (simp add: sliceLast_def drop_map)

text \<open>
  The conversation sent is the last six messages of the log: the last six of the last ten.
  When there are units, the state section lists the name and description of each, in the
  order of the unit mapping, and the screen order as names.
\<close>

lemma decisionUserMessage_conversation:
  "recentConversation (decisionUserMessage s p)
     = map (\<lambda>m. (role m, content m)) (sliceLast 6 (messages s))"
proof -
  have "sliceLast 6 (sliceLast 10 (messages s)) = sliceLast 6 (messages s)"
    by (rule sliceLast_sliceLast) simp
  moreover have "sliceLast 6 (messages s) = []" if "sliceLast 10 (messages s) = []"
    using that by (simp add: sliceLast_Nil)
  ultimately show ?thesis
    by (auto simp: decisionUserMessage_def formatStateForDecision_def Let_def sliceLast_map)
qed

lemma decisionUserMessage_units:
  "components s \<noteq> [] \<Longrightarrow>
   map_option existingComponents (currentState (decisionUserMessage s p))
     = Some (map (\<lambda>c. (name c, description c)) (map snd (components s)))
   \<and> map_option currentScreenOrder (currentState (decisionUserMessage s p))
     = Some (screenOrderNames s)"
  by (simp add: decisionUserMessage_def formatStateForDecision_def Let_def)

text \<open>
  The layout shown is always \<open>stack\<close>: \<open>makeDecision\<close> does not pass the layout of the
  session to \<open>formatStateForDecision\<close>.
\<close>

lemma decisionUserMessage_layout:
  "components s \<noteq> [] \<Longrightarrow>
   map_option currentLayoutShown (currentState (decisionUserMessage s p)) = Some ''stack''"
  by (simp add: decisionUserMessage_def formatStateForDecision_def Let_def)

text \<open>
  C9. The context is to hold the current layout tag. The session below is composed under
  \<open>sidebar-left\<close>, and the context built for it shows \<open>stack\<close>.
\<close>

theorem decision_context_layout:
  "map_option (\<lambda>sc. layoutTag (layout sc)) (screen exSession) = Some ''sidebar-left''
   \<and> map_option currentLayoutShown (currentState (decisionUserMessage exSession ''make the header darker''))
       = Some ''stack''"
  by (simp add: decisionUserMessage_def formatStateForDecision_def Let_def exSession_def)

section \<open>The agent entry point\<close>

text \<open>
  Entering a call: a named session that is in the store is touched; in every other case
  a fresh session is created under the new identifier. In a store where every session
  sits under its own identifier, the session entered is in the store under its identifier.
\<close>

lemma getOrCreateSession_existing:
  assumes "st0 sid = Some s" and "sid \<noteq> []"
  shows "getOrCreateSession st0 (Some sid) newId t
         = (st0(sid \<mapsto> s\<lparr>lastActivityAt := t\<rparr>), s\<lparr>lastActivityAt := t\<rparr>)"
  using assms by (simp add: getOrCreateSession_def Let_def)

lemma getOrCreateSession_fresh:
  assumes "sessionId = None \<or> sessionId = Some [] \<or> (\<exists>sid. sessionId = Some sid \<and> st0 sid = None)"
  shows "getOrCreateSession st0 sessionId newId t
         = (st0(newId \<mapsto> freshSession newId t), freshSession newId t)"
  using assms
  by (auto simp: getOrCreateSession_def createSession_def freshSession_def Let_def
      split: option.splits)

lemma getOrCreateSession_keyed:
  assumes "keyed st0" and "getOrCreateSession st0 sessionId newId t = (st1, s0)"
  shows "st1 (SessionState.id s0) = Some s0"
proof (cases "\<exists>sid s. sessionId = Some sid \<and> sid \<noteq> [] \<and> st0 sid = Some s")
  case True
  then obtain sid s where e: "sessionId = Some sid" "sid \<noteq> []" "st0 sid = Some s"
    by blast
  then have "SessionState.id s = sid"
    using assms(1) by (simp add: keyed_def)
  moreover have "(st1, s0) = (st0(sid \<mapsto> s\<lparr>lastActivityAt := t\<rparr>), s\<lparr>lastActivityAt := t\<rparr>)"
    using assms(2) e by (auto simp: getOrCreateSession_existing)
  then have "st1 = st0(sid \<mapsto> s\<lparr>lastActivityAt := t\<rparr>)" "s0 = s\<lparr>lastActivityAt := t\<rparr>"
    by simp_all
  ultimately show ?thesis
    by simp
next
  case False
  then have "sessionId = None \<or> sessionId = Some [] \<or> (\<exists>sid. sessionId = Some sid \<and> st0 sid = None)"
    by (cases sessionId) auto
  then have "(st1, s0) = (st0(newId \<mapsto> freshSession newId t), freshSession newId t)"
    using assms(2) by (auto simp: getOrCreateSession_fresh)
  then have "st1 = st0(newId \<mapsto> freshSession newId t)" "s0 = freshSession newId t"
    by simp_all
  then show ?thesis
    by (simp add: freshSession_def)
qed

text \<open>
  After entering, the prompt is logged and the decision is made on the store that holds
  the logged prompt.
\<close>

lemma runAgent_entered:
  assumes "getOrCreateSession st0 sessionId (newSessionId env) (tEnter env) = (st1, s0)"
    and "st1 (SessionState.id s0) = Some s0"
  shows "runAgent lc st0 p sessionId env =
     (let sid = SessionState.id s0;
          st2 = st1(sid \<mapsto> prompted s0 p env)
      in case makeDecision lc st2 p sid (firstReply env) (retryReply env) of
           Inl msg \<Rightarrow> (st2, caught st2 sessionId msg)
         | Inr d \<Rightarrow>
             if action d = REGENERATE_SCREEN then
               if absentOrEmpty (regenerateSpecs d) then
                 (st2, \<lparr>success = False, session = viewOf st2 sid, rationale = None,
                         error = Some ''REGENERATE_SCREEN requires regenerateSpecs'',
                         decision = None\<rparr>)
               else
                 (let st3 = clearForRegeneration st2 sid;
                      (st4, created, err) =
                        executeRegenerate lc st3 sid (orEmpty (regenerateSpecs d))
                          (AgentDecision.layout d) (genCalls env) (settledIn env) (tCompose env)
                  in case err of
                       Some e \<Rightarrow> (st4, failed st4 sid d e)
                     | None \<Rightarrow> recordOutcome st4 sid p d env)
             else
               (let (st3, err) =
                      executeUpdate lc st2 sid d (genCalls env) (settledIn env) (tCompose env)
                in case err of
                     Some e \<Rightarrow> (st3, failed st3 sid d e)
                   | None \<Rightarrow> recordOutcome st3 sid p d env))"
proof -
  have m: "addMessage st1 (SessionState.id s0) User p (tUserMessage env)
             = (st1(SessionState.id s0 \<mapsto> prompted s0 p env),
                Some \<lparr>role = User, content = p, Message.timestamp = tUserMessage env\<rparr>)"
    using assms(2) by (simp add: addMessage_def prompted_def Let_def)
  show ?thesis
    by (simp only: runAgent_def assms(1) m Let_def prod.case)
qed

lemma prompted_fields:
  "SessionState.id (prompted s p env) = SessionState.id s"
  "components (prompted s p env) = components s"
  "screen (prompted s p env) = screen s"
  "decisionHistory (prompted s p env) = decisionHistory s"
  "createdAt (prompted s p env) = createdAt s"
  "messages (prompted s p env)
     = messages s @ [\<lparr>role = User, content = p, Message.timestamp = tUserMessage env\<rparr>]"
  by (simp_all add: prompted_def)

lemma makeDecision_rejected_twice:
  assumes "st sid = Some s"
    and "firstAttempt (decisionUserMessage s p) = Rejected e1"
    and "retryAttempt (decisionUserMessage s p) = Rejected e2"
  shows "makeDecision lc st p sid firstAttempt retryAttempt
         = Inl (''Failed to parse agent decision after retry: '' @ e2)"
  using assms by (simp add: makeDecision_def getSession_def Let_def)

text \<open>
  C2, as the code has it. The call runs on the session it enters: the named session when
  it is in the store, otherwise a fresh one. When both the first reply and the reply to
  the retry are rejected, decision making fails with the parse error of the second.
  Whenever decision making fails, \<open>runAgent\<close> returns a failure carrying that error, and in
  the store the session has its unit mapping, its composition and its decision audit log
  exactly as they were when the call entered; its message log is the log as it was with
  the user's prompt appended, since the prompt is logged before the decision is made and
  nothing takes it back. For a named session that is in the store, what the call enters
  with is what the session held before the call.
\<close>

theorem decision_failure_state:
  assumes "keyed st0"
    and "getOrCreateSession st0 sessionId (newSessionId env) (tEnter env) = (st1, s0)"
  shows "(firstReply env (decisionUserMessage (prompted s0 p env) p) = Rejected e1
          \<and> retryReply env (decisionUserMessage (prompted s0 p env) p) = Rejected e2 \<longrightarrow>
            makeDecision lc (st1(SessionState.id s0 \<mapsto> prompted s0 p env)) p (SessionState.id s0)
              (firstReply env) (retryReply env)
              = Inl (''Failed to parse agent decision after retry: '' @ e2))
       \<and> (makeDecision lc (st1(SessionState.id s0 \<mapsto> prompted s0 p env)) p (SessionState.id s0)
              (firstReply env) (retryReply env) = Inl msg \<longrightarrow>
            (\<exists>s'. fst (runAgent lc st0 p sessionId env) = st1(SessionState.id s0 \<mapsto> s')
                  \<and> success (snd (runAgent lc st0 p sessionId env)) = False
                  \<and> error (snd (runAgent lc st0 p sessionId env)) = Some msg
                  \<and> components s' = components s0
                  \<and> screen s' = screen s0
                  \<and> decisionHistory s' = decisionHistory s0
                  \<and> messages s'
                      = messages s0 @ [\<lparr>role = User, content = p,
                                         Message.timestamp = tUserMessage env\<rparr>]))
       \<and> (\<forall>sid s. sessionId = Some sid \<and> sid \<noteq> [] \<and> st0 sid = Some s \<longrightarrow>
            st1 = st0(sid \<mapsto> s0) \<and> SessionState.id s0 = sid
            \<and> components s0 = components s \<and> screen s0 = screen s
            \<and> decisionHistory s0 = decisionHistory s \<and> messages s0 = messages s)"
proof (intro conjI impI allI)
  have k: "st1 (SessionState.id s0) = Some s0"
    using assms by (rule getOrCreateSession_keyed)
  {
    assume "firstReply env (decisionUserMessage (prompted s0 p env) p) = Rejected e1
          \<and> retryReply env (decisionUserMessage (prompted s0 p env) p) = Rejected e2"
    then show "makeDecision lc (st1(SessionState.id s0 \<mapsto> prompted s0 p env)) p (SessionState.id s0)
              (firstReply env) (retryReply env)
              = Inl (''Failed to parse agent decision after retry: '' @ e2)"
      by (simp add: makeDecision_rejected_twice [where s = "prompted s0 p env"])
  }
  {
    assume f: "makeDecision lc (st1(SessionState.id s0 \<mapsto> prompted s0 p env)) p (SessionState.id s0)
              (firstReply env) (retryReply env) = Inl msg"
    have "runAgent lc st0 p sessionId env
            = (st1(SessionState.id s0 \<mapsto> prompted s0 p env),
               caught (st1(SessionState.id s0 \<mapsto> prompted s0 p env)) sessionId msg)"
      by (simp add: runAgent_entered [OF assms(2) k] Let_def f)
    then have "fst (runAgent lc st0 p sessionId env) = st1(SessionState.id s0 \<mapsto> prompted s0 p env)"
      "success (snd (runAgent lc st0 p sessionId env)) = False"
      "error (snd (runAgent lc st0 p sessionId env)) = Some msg"
      by (simp_all add: caught_def)
    then show "\<exists>s'. fst (runAgent lc st0 p sessionId env) = st1(SessionState.id s0 \<mapsto> s')
                  \<and> success (snd (runAgent lc st0 p sessionId env)) = False
                  \<and> error (snd (runAgent lc st0 p sessionId env)) = Some msg
                  \<and> components s' = components s0
                  \<and> screen s' = screen s0
                  \<and> decisionHistory s' = decisionHistory s0
                  \<and> messages s'
                      = messages s0 @ [\<lparr>role = User, content = p,
                                         Message.timestamp = tUserMessage env\<rparr>]"
      using prompted_fields [of s0 p env] by blast
  }
  fix sid s
  assume e: "sessionId = Some sid \<and> sid \<noteq> [] \<and> st0 sid = Some s"
  then have "(st1, s0) = (st0(sid \<mapsto> s\<lparr>lastActivityAt := tEnter env\<rparr>), s\<lparr>lastActivityAt := tEnter env\<rparr>)"
    using assms(2) by (auto simp: getOrCreateSession_existing)
  then have i: "st1 = st0(sid \<mapsto> s0)" "s0 = s\<lparr>lastActivityAt := tEnter env\<rparr>"
    by simp_all
  from e assms(1) have "SessionState.id s = sid"
    by (simp add: keyed_def)
  with i show "st1 = st0(sid \<mapsto> s0)" "SessionState.id s0 = sid"
    "components s0 = components s" "screen s0 = screen s"
    "decisionHistory s0 = decisionHistory s" "messages s0 = messages s"
    by simp_all
qed

lemma exStore_keyed: "keyed exStore"
  by (simp add: keyed_def exStore_def exSession_def)

lemma exStore_entered:
  "getOrCreateSession exStore (Some ''s1'') newId t
     = (exStore(''s1'' \<mapsto> exSession\<lparr>lastActivityAt := t\<rparr>), exSession\<lparr>lastActivityAt := t\<rparr>)"
  by (rule getOrCreateSession_existing) (simp_all add: exStore_def)

text \<open>
  The claim as written fails: both replies are rejected, the call fails, and the message
  log of the session, empty before the call, holds the prompt after it.
\<close>

theorem decision_failure_state_counterexample:
  "firstReply envRejecting
     (decisionUserMessage (prompted (exSession\<lparr>lastActivityAt := 10\<rparr>) ''make it pop'' envRejecting)
        ''make it pop'') = Rejected ''Unexpected token''
   \<and> retryReply envRejecting
     (decisionUserMessage (prompted (exSession\<lparr>lastActivityAt := 10\<rparr>) ''make it pop'' envRejecting)
        ''make it pop'') = Rejected ''Required: action''
   \<and> success (snd (runAgent asciiLowerCase exStore ''make it pop'' (Some ''s1'') envRejecting)) = False
   \<and> map_option messages (exStore ''s1'') = Some []
   \<and> map_option messages (fst (runAgent asciiLowerCase exStore ''make it pop'' (Some ''s1'') envRejecting) ''s1'')
       = Some [\<lparr>role = User, content = ''make it pop'', Message.timestamp = 11\<rparr>]"
proof -
  let ?s0 = "exSession\<lparr>lastActivityAt := 10\<rparr>"
  have e: "getOrCreateSession exStore (Some ''s1'') (newSessionId envRejecting) (tEnter envRejecting)
             = (exStore(''s1'' \<mapsto> ?s0), ?s0)"
    by (simp add: exStore_entered envRejecting_def)
  have k: "(exStore(''s1'' \<mapsto> ?s0)) (SessionState.id ?s0) = Some ?s0"
    by (simp add: exSession_def)
  have i: "SessionState.id ?s0 = ''s1''"
    by (simp add: exSession_def)
  have md: "makeDecision asciiLowerCase (exStore(''s1'' \<mapsto> prompted ?s0 ''make it pop'' envRejecting))
          ''make it pop'' ''s1'' (firstReply envRejecting) (retryReply envRejecting)
        = Inl ''Failed to parse agent decision after retry: Required: action''"
    by (simp add: makeDecision_def getSession_def envRejecting_def Let_def)
  note entered = runAgent_entered [OF e k, of asciiLowerCase "''make it pop''", unfolded i fun_upd_upd Let_def]
  have "runAgent asciiLowerCase exStore ''make it pop'' (Some ''s1'') envRejecting
        = (exStore(''s1'' \<mapsto> prompted ?s0 ''make it pop'' envRejecting),
           caught (exStore(''s1'' \<mapsto> prompted ?s0 ''make it pop'' envRejecting)) (Some ''s1'')
             ''Failed to parse agent decision after retry: Required: action'')"
    by (simp only: entered md sum.case)
  then show ?thesis
    by (simp add: caught_def prompted_def envRejecting_def exSession_def exStore_def)
qed

theorem decision_failure_state_witness:
  "\<exists>s'. fst (runAgent asciiLowerCase exStore ''make it pop'' (Some ''s1'') envRejecting) = exStore(''s1'' \<mapsto> s')
        \<and> success (snd (runAgent asciiLowerCase exStore ''make it pop'' (Some ''s1'') envRejecting)) = False
        \<and> error (snd (runAgent asciiLowerCase exStore ''make it pop'' (Some ''s1'') envRejecting))
            = Some ''Failed to parse agent decision after retry: Required: action''
        \<and> components s' = components exSession
        \<and> screen s' = screen exSession
        \<and> decisionHistory s' = decisionHistory exSession
        \<and> messages s' = messages exSession
                           @ [\<lparr>role = User, content = ''make it pop'', Message.timestamp = 11\<rparr>]"
proof -
  let ?s0 = "exSession\<lparr>lastActivityAt := 10\<rparr>"
  let ?st1 = "exStore(''s1'' \<mapsto> ?s0)"
  have e: "getOrCreateSession exStore (Some ''s1'') (newSessionId envRejecting) (tEnter envRejecting)
             = (?st1, ?s0)"
    by (simp add: exStore_entered envRejecting_def)
  have r: "firstReply envRejecting (decisionUserMessage (prompted ?s0 ''make it pop'' envRejecting)
                              ''make it pop'') = Rejected ''Unexpected token''
   \<and> retryReply envRejecting (decisionUserMessage (prompted ?s0 ''make it pop'' envRejecting)
                              ''make it pop'') = Rejected ''Required: action''"
    by (simp add: envRejecting_def)
  have t: "tUserMessage envRejecting = 11"
    by (simp add: envRejecting_def)
  have x: "Some ''s1'' = Some ''s1'' \<and> ''s1'' \<noteq> [] \<and> exStore ''s1'' = Some exSession"
    by (simp add: exStore_def)
  note inst = decision_failure_state [of exStore "Some ''s1''" envRejecting ?st1 ?s0 "''make it pop''"
      "''Unexpected token''" "''Required: action''" asciiLowerCase
      "''Failed to parse agent decision after retry: Required: action''", OF exStore_keyed e]
  note failing = inst [THEN conjunct1, THEN mp, OF r, unfolded append_Cons append_Nil]
  note outcome = inst [THEN conjunct2, THEN conjunct1, THEN mp, OF failing]
  note before = inst [THEN conjunct2, THEN conjunct2, THEN spec, THEN spec, THEN mp, OF x]
  from outcome obtain s' where s':
    "fst (runAgent asciiLowerCase exStore ''make it pop'' (Some ''s1'') envRejecting)
       = ?st1(SessionState.id ?s0 \<mapsto> s')"
    "success (snd (runAgent asciiLowerCase exStore ''make it pop'' (Some ''s1'') envRejecting)) = False"
    "error (snd (runAgent asciiLowerCase exStore ''make it pop'' (Some ''s1'') envRejecting))
       = Some ''Failed to parse agent decision after retry: Required: action''"
    "components s' = components ?s0" "screen s' = screen ?s0"
    "decisionHistory s' = decisionHistory ?s0"
    "messages s' = messages ?s0 @ [\<lparr>role = User, content = ''make it pop'',
                                     Message.timestamp = tUserMessage envRejecting\<rparr>]"
    by (elim exE conjE)
  from before have "SessionState.id ?s0 = ''s1''"
    by (elim conjE)
  with s'(1) have "fst (runAgent asciiLowerCase exStore ''make it pop'' (Some ''s1'') envRejecting)
                     = exStore(''s1'' \<mapsto> s')"
    by simp
  with s'(2-7) t show ?thesis
    by (intro exI [of _ s']) simp
qed

section \<open>Regeneration clears the session first\<close>

lemma succeeded_Nil_iff:
  "succeeded (map (\<lambda>i. outcome (AwaitCreate (specs ! i)) (calls i)) xs) = []
     \<longleftrightarrow> filter (\<lambda>i. generationSucceeds (calls i)) xs = []"
proof -
  have "length (succeeded (map (\<lambda>i. outcome (AwaitCreate (specs ! i)) (calls i)) xs))
          = length (filter (\<lambda>i. generationSucceeds (calls i)) xs)"
    using arg_cong [OF succeeded_ids [of specs calls xs], of length] by simp
  then show ?thesis
    by (rule same_length_Nil)
qed

lemma afterSettling_none_succeed:
  assumes e: "filter (\<lambda>i. generationSucceeds (calls i)) [0..<length specs] = []"
  shows "afterSettling s (map AwaitCreate specs) calls (settleOrder (length specs) order) = s"
proof (rule afterSettling_all_failed, intro ballI allI)
  fix i c assume "i \<in> set (settleOrder (length specs) order)"
  then have i: "i < length specs"
    by (simp add: set_settleOrder)
  with e have "\<not> generationSucceeds (calls i)"
    by (simp add: filter_empty_conv)
  then have "\<not> (\<exists>c. outcome (AwaitCreate (specs ! i)) (calls i) = Inr c)"
    using outcome_succeeds [of "calls i" "specs ! i"] by blast
  with i show "outcome (map AwaitCreate specs ! i) (calls i) \<noteq> Inr c"
    by simp
qed

lemma regenerated_keys:
  "set (map fst (components (afterSettling s (map AwaitCreate specs) calls
                               (settleOrder (length specs) order))))
     = set (map fst (components s))
       \<union> set (map (\<lambda>i. uuid (calls i))
                (filter (\<lambda>i. generationSucceeds (calls i)) [0..<length specs]))"
proof -
  have "{Component.id c |i c. i \<in> {0..<length specs}
            \<and> outcome (map AwaitCreate specs ! i) (calls i) = Inr c}
        = (\<lambda>i. uuid (calls i)) ` {i \<in> {0..<length specs}. generationSucceeds (calls i)}"
    (is "?A = ?B")
  proof (intro set_eqI iffI)
    fix k assume "k \<in> ?A"
    then obtain i c where i: "i < length specs" "outcome (AwaitCreate (specs ! i)) (calls i) = Inr c"
      "k = Component.id c"
      by auto
    then have "generationSucceeds (calls i)" "k = uuid (calls i)"
      using outcome_succeeds [of "calls i" "specs ! i"] outcome_create_id by auto
    with i(1) show "k \<in> ?B"
      by auto
  next
    fix k assume "k \<in> ?B"
    then obtain i where i: "i < length specs" "generationSucceeds (calls i)" "k = uuid (calls i)"
      by auto
    then obtain c where c: "outcome (AwaitCreate (specs ! i)) (calls i) = Inr c"
      using outcome_succeeds [of "calls i" "specs ! i"] by blast
    then have "Component.id c = k"
      using i(3) outcome_create_id by simp
    with i(1) c show "k \<in> ?A"
      by force
  qed
  then show ?thesis
    unfolding afterSettling_keys set_settleOrder by simp
qed

lemma recordOutcome_eq:
  assumes "st sid = Some s"
  shows "recordOutcome st sid p d env
         = (let s' = s\<lparr>messages := messages s
                         @ [\<lparr>role = Assistant, content = formatAssistantResponse d,
                              Message.timestamp = tAssistantMessage env\<rparr>],
                       decisionHistory := decisionHistory s
                         @ [\<lparr>DecisionHistoryEntry.id = newHistoryId env, prompt = p,
                              decision = d, DecisionHistoryEntry.timestamp = tHistory env,
                              componentsAffected = getComponentsAffected d\<rparr>],
                       lastActivityAt := tHistory env\<rparr>
            in (st(sid \<mapsto> s'),
                \<lparr>success = True, session = serializeSession s',
                 rationale = Some (AgentDecision.rationale d), error = None, decision = Some d\<rparr>))"
  using assms
  by (simp add: recordOutcome_def addMessage_def addDecisionToHistory_def viewOf_def getSession_def
      Let_def)

lemma clearForRegeneration_eq:
  "clearForRegeneration (st(sid \<mapsto> s)) sid = st(sid \<mapsto> s\<lparr>components := [], screen := None\<rparr>)"
  by (simp add: clearForRegeneration_def)


text \<open>
  C10. When the normalized decision is a regeneration with at least one spec, \<open>runAgent\<close>
  empties the unit mapping of the session it runs on and removes its composition, and the
  generation batch runs on the store so cleared. Whatever the calls return, the
  identifiers in the unit mapping afterwards are those of the calls of this batch that
  succeeded: none of the units the session held before remains. If every call fails, the
  call reports the failure "Failed to create any components" and the session is left with
  no units and no composition. For a named session that is in the store, the units and
  the composition the call enters with are those the session held before the call.
\<close>

theorem destructive_clear:
  assumes "keyed st0"
    and "getOrCreateSession st0 sessionId (newSessionId env) (tEnter env) = (st1, s0)"
    and "makeDecision lc (st1(SessionState.id s0 \<mapsto> prompted s0 p env)) p (SessionState.id s0)
           (firstReply env) (retryReply env) = Inr d"
    and "action d = REGENERATE_SCREEN"
    and "\<not> absentOrEmpty (regenerateSpecs d)"
  shows "let sid = SessionState.id s0;
             specs = orEmpty (regenerateSpecs d);
             cleared = (prompted s0 p env)\<lparr>components := [], screen := None\<rparr>;
             batch = executeRegenerate lc (st1(sid \<mapsto> cleared)) sid specs (AgentDecision.layout d)
                       (genCalls env) (settledIn env) (tCompose env);
             ok = filter (\<lambda>i. generationSucceeds (genCalls env i)) [0..<length specs]
         in runAgent lc st0 p sessionId env
              = (case snd (snd batch) of
                   Some e \<Rightarrow> (fst batch, failed (fst batch) sid d e)
                 | None \<Rightarrow> recordOutcome (fst batch) sid p d env)
          \<and> (\<exists>s'. fst (runAgent lc st0 p sessionId env) sid = Some s'
                  \<and> set (map fst (components s')) = set (map (\<lambda>i. uuid (genCalls env i)) ok))
          \<and> (ok = [] \<longrightarrow>
                runAgent lc st0 p sessionId env
                  = (st1(sid \<mapsto> cleared),
                     \<lparr>success = False, session = serializeSession cleared,
                      rationale = Some (AgentDecision.rationale d),
                      error = Some ''Failed to create any components'', decision = None\<rparr>))
          \<and> (\<forall>k s. sessionId = Some k \<and> k \<noteq> [] \<and> st0 k = Some s \<longrightarrow>
                sid = k \<and> st1(sid \<mapsto> cleared) = st0(k \<mapsto> cleared)
                \<and> components s0 = components s \<and> screen s0 = screen s)"
proof -
  let ?sid = "SessionState.id s0"
  let ?specs = "orEmpty (regenerateSpecs d)"
  let ?cleared = "(prompted s0 p env)\<lparr>components := [], screen := None\<rparr>"
  let ?st3 = "st1(?sid \<mapsto> ?cleared)"
  let ?batch = "executeRegenerate lc ?st3 ?sid ?specs (AgentDecision.layout d)
                  (genCalls env) (settledIn env) (tCompose env)"
  let ?ok = "filter (\<lambda>i. generationSucceeds (genCalls env i)) [0..<length ?specs]"
  let ?rs = "map (\<lambda>i. outcome (AwaitCreate (?specs ! i)) (genCalls env i)) [0..<length ?specs]"
  let ?s1 = "afterSettling ?cleared (map AwaitCreate ?specs) (genCalls env)
               (settleOrder (length ?specs) (settledIn env))"
  have k: "st1 ?sid = Some s0"
    using assms(1,2) by (rule getOrCreateSession_keyed)
  have run: "runAgent lc st0 p sessionId env
              = (case snd (snd ?batch) of
                   Some e \<Rightarrow> (fst ?batch, failed (fst ?batch) ?sid d e)
                 | None \<Rightarrow> recordOutcome (fst ?batch) ?sid p d env)"
    using assms(3-5)
    by (simp add: runAgent_entered [OF assms(2) k] Let_def clearForRegeneration_eq split_def)
  have st3: "?st3 ?sid = Some ?cleared"
    by simp
  note batch = executeRegenerate_eq [of ?st3 ?sid ?cleared lc ?specs "AgentDecision.layout d"
      "genCalls env" "settledIn env" "tCompose env", OF st3]
  have keys: "set (map fst (components ?s1)) = set (map (\<lambda>i. uuid (genCalls env i)) ?ok)"
    using regenerated_keys [of ?cleared ?specs "genCalls env" "settledIn env"] by simp
  have before: "\<forall>k s. sessionId = Some k \<and> k \<noteq> [] \<and> st0 k = Some s \<longrightarrow>
                ?sid = k \<and> ?st3 = st0(k \<mapsto> ?cleared)
                \<and> components s0 = components s \<and> screen s0 = screen s"
  proof (intro allI impI)
    fix k s assume e: "sessionId = Some k \<and> k \<noteq> [] \<and> st0 k = Some s"
    then have "(st1, s0) = (st0(k \<mapsto> s\<lparr>lastActivityAt := tEnter env\<rparr>),
                             s\<lparr>lastActivityAt := tEnter env\<rparr>)"
      using assms(2) by (auto simp: getOrCreateSession_existing)
    then have i: "st1 = st0(k \<mapsto> s0)" "s0 = s\<lparr>lastActivityAt := tEnter env\<rparr>"
      by simp_all
    from e assms(1) have "SessionState.id s = k"
      by (simp add: keyed_def)
    with i have "?sid = k" "components s0 = components s" "screen s0 = screen s"
      by simp_all
    moreover from this(1) i(1) have "?st3 = st0(k \<mapsto> ?cleared)"
      by (metis fun_upd_upd)
    ultimately show "?sid = k \<and> ?st3 = st0(k \<mapsto> ?cleared)
                \<and> components s0 = components s \<and> screen s0 = screen s"
      by (intro conjI)
  qed
  show ?thesis
  proof (cases "?ok = []")
    case True
    then have "succeeded ?rs = []"
      by (simp add: succeeded_Nil_iff)
    moreover have "?s1 = ?cleared"
      using True by (rule afterSettling_none_succeed)
    ultimately have b: "?batch = (?st3, [], Some ''Failed to create any components'')"
      by (simp add: batch Let_def)
    have r: "runAgent lc st0 p sessionId env
               = (?st3, \<lparr>success = False, session = serializeSession ?cleared,
                      rationale = Some (AgentDecision.rationale d),
                      error = Some ''Failed to create any components'', decision = None\<rparr>)"
      by (simp add: run b failed_def viewOf_def getSession_def)
    have x: "\<exists>s'. fst (runAgent lc st0 p sessionId env) ?sid = Some s'
                  \<and> set (map fst (components s')) = set (map (\<lambda>i. uuid (genCalls env i)) ?ok)"
      using True by (simp add: r)
    have y: "?ok = [] \<longrightarrow> runAgent lc st0 p sessionId env
               = (?st3, \<lparr>success = False, session = serializeSession ?cleared,
                      rationale = Some (AgentDecision.rationale d),
                      error = Some ''Failed to create any components'', decision = None\<rparr>)"
      using r by (rule impI)
    show ?thesis
      unfolding Let_def by (intro conjI; (rule run | rule x | rule y | rule before))
  next
    case False
    then have "succeeded ?rs \<noteq> []"
      by (simp add: succeeded_Nil_iff)
    then obtain sc where b: "?batch = (?st3(?sid \<mapsto> ?s1\<lparr>screen := Some sc, lastActivityAt := tCompose env\<rparr>),
                                        succeeded ?rs, None)"
      by (simp add: batch Let_def)
    let ?s4 = "?s1\<lparr>screen := Some sc, lastActivityAt := tCompose env\<rparr>"
    have "(st1(?sid \<mapsto> ?s4)) ?sid = Some ?s4"
      by simp
    note rec = recordOutcome_eq [of "st1(?sid \<mapsto> ?s4)" ?sid ?s4 p d env, OF this]
    have x: "\<exists>s'. fst (runAgent lc st0 p sessionId env) ?sid = Some s'
                  \<and> set (map fst (components s')) = set (map (\<lambda>i. uuid (genCalls env i)) ?ok)"
      using keys by (simp add: run b rec Let_def)
    have y: "?ok = [] \<longrightarrow> runAgent lc st0 p sessionId env
               = (?st3, \<lparr>success = False, session = serializeSession ?cleared,
                      rationale = Some (AgentDecision.rationale d),
                      error = Some ''Failed to create any components'', decision = None\<rparr>)"
      using False by simp
    show ?thesis
      unfolding Let_def by (intro conjI; (rule run | rule x | rule y | rule before))
  qed
qed

text \<open>
  The session holding Header and Footer, an explicit regeneration, every call failing.
\<close>

theorem destructive_clear_witness:
  "map_option components (exStore ''s1'') = Some [(idHeader, exHeader), (idFooter, exFooter)]
   \<and> success (snd (runAgent asciiLowerCase exStore ''Start from scratch'' (Some ''s1'') envScratchFailing)) = False
   \<and> error (snd (runAgent asciiLowerCase exStore ''Start from scratch'' (Some ''s1'') envScratchFailing))
       = Some ''Failed to create any components''
   \<and> map_option components (fst (runAgent asciiLowerCase exStore ''Start from scratch'' (Some ''s1'') envScratchFailing) ''s1'')
       = Some []
   \<and> map_option screen (fst (runAgent asciiLowerCase exStore ''Start from scratch'' (Some ''s1'') envScratchFailing) ''s1'')
       = Some None"
proof -
  let ?s0 = "exSession\<lparr>lastActivityAt := 10\<rparr>"
  let ?st1 = "exStore(''s1'' \<mapsto> ?s0)"
  have e: "getOrCreateSession exStore (Some ''s1'') (newSessionId envScratchFailing)
             (tEnter envScratchFailing) = (?st1, ?s0)"
    by (simp add: exStore_entered envScratchFailing_def)
  have i: "SessionState.id ?s0 = ''s1''"
    by (simp add: exSession_def)
  have n: "normalizeDecision asciiLowerCase exScratch True ''Start from scratch'' = exScratch"
    by code_simp
  have "makeDecision asciiLowerCase (exStore(''s1'' \<mapsto> prompted ?s0 ''Start from scratch'' envScratchFailing))
             ''Start from scratch'' ''s1'' (firstReply envScratchFailing) (retryReply envScratchFailing)
           = Inr exScratch"
    by (simp add: makeDecision_def getSession_def Let_def envScratchFailing_def prompted_def
        exSession_def n)
  then have d: "makeDecision asciiLowerCase (?st1(SessionState.id ?s0 \<mapsto> prompted ?s0 ''Start from scratch'' envScratchFailing))
             ''Start from scratch'' (SessionState.id ?s0) (firstReply envScratchFailing)
             (retryReply envScratchFailing)
           = Inr exScratch"
    by (simp only: i fun_upd_upd)
  have a: "action exScratch = REGENERATE_SCREEN" "\<not> absentOrEmpty (regenerateSpecs exScratch)"
    by (simp_all add: exScratch_def absentOrEmpty_def)
  have ok: "filter (\<lambda>i. generationSucceeds (genCalls envScratchFailing i))
              [0..<length (orEmpty (regenerateSpecs exScratch))] = []"
    by (simp add: envScratchFailing_def allFailing_def callFailing_def generationSucceeds_def)
  note inst = destructive_clear [of exStore "Some ''s1''" envScratchFailing ?st1 ?s0
      asciiLowerCase "''Start from scratch''" exScratch, OF exStore_keyed e d a, unfolded Let_def]
  note cleared = inst [THEN conjunct2, THEN conjunct2, THEN conjunct1, THEN mp, OF ok,
      unfolded i fun_upd_upd]
  show ?thesis
    unfolding cleared by (simp add: exStore_def exSession_def)
qed

end
